theory Spec2Isabelle
  imports Main
begin

section \<open>The arch-scheduling controller: data model\<close>

text \<open>
  The controller of \<^verbatim>\<open>controller/controller.go\<close> watches pods, recognises the ones that
  crash-loop with the loader's "exec format error", and patches the pod's top-level
  controller object with a node-affinity rule. The Go code talks to a cluster through
  client-go; every such call is a field of the record \<open>env\<close> below, and every call the
  code makes is written to a list of events, in the order the code makes it.
\<close>

datatype error = NotFound string | ApiError string

text \<open>\<^verbatim>\<open>errors.IsNotFound\<close>\<close>

fun IsNotFound :: "error \<Rightarrow> bool" where
  "IsNotFound (NotFound m) = True"
| "IsNotFound (ApiError m) = False"

text \<open>\<^verbatim>\<open>metav1.OwnerReference\<close>: \<open>ref_controller\<close> is the pointer \<^verbatim>\<open>Controller *bool\<close>.\<close>

record ownerReference =
  ref_kind :: string
  ref_name :: string
  ref_controller :: "bool option"

text \<open>What the interface \<^verbatim>\<open>metav1.Object\<close> gives the code: a name, a namespace, the owner references.\<close>

record metaObject =
  obj_name :: string
  obj_namespace :: string
  obj_ownerReferences :: "ownerReference list"

text \<open>
  A \<^verbatim>\<open>runtime.Object\<close> as a REST call returns it. The assertion \<^verbatim>\<open>obj.(metav1.Object)\<close>
  of \<^verbatim>\<open>getOriginControllerObject\<close> panics on the second kind.
\<close>

datatype runtimeObject = MetaObject metaObject | NotMetaObject

text \<open>\<^verbatim>\<open>v1.ContainerStatus\<close>: \<open>waiting\<close> is the pointer \<^verbatim>\<open>State.Waiting\<close>, holding its \<^verbatim>\<open>Reason\<close>.\<close>

record containerStatus =
  cs_name :: string
  waiting :: "string option"

record pod =
  pod_kind :: string
  pod_namespace :: string
  pod_name :: string
  pod_ownerReferences :: "ownerReference list"
  resourceVersion :: string
  nodeName :: string
  containers :: "string list"
  containerStatuses :: "containerStatus list"

definition podObject :: "pod \<Rightarrow> metaObject" where
  "podObject p = \<lparr>obj_name = pod_name p, obj_namespace = pod_namespace p,
                  obj_ownerReferences = pod_ownerReferences p\<rparr>"

record node =
  node_name :: string
  labels :: "string \<rightharpoonup> string"

record controllerObject =
  kind :: string
  name :: string
  namespace :: string

text \<open>
  What fetching one container's log gives: \<^verbatim>\<open>req.Stream\<close> fails, or \<^verbatim>\<open>io.Copy\<close> fails after
  the bytes read so far, or the whole text is read and \<^verbatim>\<open>body.Close\<close> succeeds or not.
\<close>

datatype logStream = StreamFailed error | ReadFailed string error | Streamed string bool

text \<open>An item of the work queue is an \<^verbatim>\<open>interface{}\<close>: a string, or anything else.\<close>

datatype item = StringItem string | OtherItem nat

datatype message =
    FailedToGetLogs error
  | FailedToReadLogs error
  | EmptyLog
  | FailedToCloseBody
  | KeyFuncFailed error
  | NotAString item
  | InvalidResourceKey string
  | PodNoLongerExists string
  | FailedToPatch string error
  | SuccessfullyPatched string

datatype event =
    GetLogs string string string
  | QueueAdd string
  | QueueDone item
  | QueueForget item
  | QueueAddRateLimited string
  | HandleError message
  | Klog message
  | PodLookup string string
  | OwnerGet string string string
  | NodeGet string
  | Patch string string string string

text \<open>
  The cluster and the libraries the code calls: the log stream of a container
  (namespace, pod, container), the pod lister, the REST read of an owner
  (resource, namespace, name), the node read, the REST patch
  (namespace, resource, name, body), and gengo's lower-casing plural namer.
  The cluster is taken at one moment: during one call of a handler or of the worker
  the same read gives the same answer.
\<close>

record env =
  streamLogs :: "string \<Rightarrow> string \<Rightarrow> string \<Rightarrow> logStream"
  podGet :: "string \<Rightarrow> string \<Rightarrow> error + pod"
  ownerGet :: "string \<Rightarrow> string \<Rightarrow> string \<Rightarrow> error + runtimeObject"
  nodeGet :: "string \<Rightarrow> error + node"
  doPatch :: "string \<Rightarrow> string \<Rightarrow> string \<Rightarrow> string \<Rightarrow> error option"
  pluralNamer :: "string \<Rightarrow> string"

datatype 'a outcome = Returned 'a | Panicked

section \<open>Constants\<close>

definition errorMessage :: string where
  \<open>errorMessage =
     ''standard_init_linux.go:211: exec user process caused "exec format error"'' @ [CHR 0x0A]\<close>

definition patchJSON :: string where
  \<open>patchJSON = concat (map (\<lambda>l. l @ [CHR 0x0A]) [
    '''',
    ''{'',
    ''  "spec": {'',
    ''    "template": {'',
    ''      "spec": {'',
    ''        "affinity": {'',
    ''          "nodeAffinity": {'',
    ''            "requiredDuringSchedulingIgnoredDuringExecution": {'',
    ''              "nodeSelectorTerms": ['',
    ''                {'',
    ''                  "matchExpressions": ['',
    ''                    {'',
    ''                      "key": "beta.kubernetes.io/arch",'',
    ''                      "operator": "NotIn",'',
    ''                      "values": ['',
    ''                        "%s"'',
    ''                      ]'',
    ''                    }'',
    ''                  ]'',
    ''                }'',
    ''              ]'',
    ''            }'',
    ''          }'',
    ''        }'',
    ''      }'',
    ''    }'',
    ''  }'',
    ''}''])\<close>

section \<open>The failure classifier and the change router\<close>

text \<open>
  \<^verbatim>\<open>cache.MetaNamespaceKeyFunc\<close> of client-go on a pod: the accessor of a pod never fails,
  and the key is \<^verbatim>\<open>namespace/name\<close>, or the name alone when the namespace is empty.
\<close>

definition MetaNamespaceKeyFunc :: "pod \<Rightarrow> error + string" where
  "MetaNamespaceKeyFunc p =
     (if length (pod_namespace p) > 0 then Inr (pod_namespace p @ ''/'' @ pod_name p)
      else Inr (pod_name p))"

definition enqueuePod :: "pod \<Rightarrow> event list" where
  "enqueuePod p =
     (case MetaNamespaceKeyFunc p of
        Inl err \<Rightarrow> [HandleError (KeyFuncFailed err)]
      | Inr key \<Rightarrow> [QueueAdd key])"

text \<open>
  The inner loop of \<^verbatim>\<open>handleObject\<close>, over \<^verbatim>\<open>pod.Spec.Containers\<close>. The flag says that the
  loop left \<^verbatim>\<open>handleObject\<close> through its \<^verbatim>\<open>return\<close>, after \<^verbatim>\<open>enqueuePod\<close>.
\<close>

fun scanContainers :: "env \<Rightarrow> pod \<Rightarrow> string list \<Rightarrow> bool \<times> event list" where
  "scanContainers c p [] = (False, [])"
| "scanContainers c p (ct # cts) =
     (case streamLogs c (pod_namespace p) (pod_name p) ct of
        StreamFailed err \<Rightarrow>
          (case scanContainers c p cts of
             (r, evs) \<Rightarrow> (r, GetLogs (pod_namespace p) (pod_name p) ct # Klog (FailedToGetLogs err) # evs))
      | ReadFailed buf err \<Rightarrow>
          (case scanContainers c p cts of
             (r, evs) \<Rightarrow> (r, GetLogs (pod_namespace p) (pod_name p) ct # Klog (FailedToReadLogs err) # evs))
      | Streamed buf closed \<Rightarrow>
          (let logged = GetLogs (pod_namespace p) (pod_name p) ct
                 # (if length buf = 0 then [Klog EmptyLog] else [])
                 @ (if closed then [] else [Klog FailedToCloseBody])
           in if buf = errorMessage then (True, logged @ enqueuePod p)
              else (case scanContainers c p cts of (r, evs) \<Rightarrow> (r, logged @ evs))))"

text \<open>
  The outer loop of \<^verbatim>\<open>handleObject\<close>, over \<^verbatim>\<open>pod.Status.ContainerStatuses\<close>. The handlers are
  registered on the informer of pods, which passes pods only: the argument is a pod here,
  and the assertion \<^verbatim>\<open>obj.(*v1.Pod)\<close> has no failing branch.
\<close>

definition crashLooping :: "containerStatus \<Rightarrow> bool" where
  "crashLooping cs = (waiting cs \<noteq> None \<and> waiting cs = Some ''CrashLoopBackOff'')"

fun scanStatuses :: "env \<Rightarrow> pod \<Rightarrow> containerStatus list \<Rightarrow> bool \<times> event list" where
  "scanStatuses c p [] = (False, [])"
| "scanStatuses c p (cs # css) =
     (if crashLooping cs then
        (case scanContainers c p (containers p) of
           (True, evs) \<Rightarrow> (True, evs)
         | (False, evs) \<Rightarrow> (case scanStatuses c p css of (r, evs') \<Rightarrow> (r, evs @ evs')))
      else scanStatuses c p css)"

definition handleObject :: "env \<Rightarrow> pod \<Rightarrow> event list" where
  "handleObject c p = snd (scanStatuses c p (containerStatuses p))"

text \<open>The two handlers registered by \<^verbatim>\<open>NewArchSchedulingController\<close>.\<close>

definition AddFunc :: "env \<Rightarrow> pod \<Rightarrow> event list" where
  "AddFunc c p = handleObject c p"

definition UpdateFunc :: "env \<Rightarrow> pod \<Rightarrow> pod \<Rightarrow> event list" where
  "UpdateFunc c old new =
     (if resourceVersion new = resourceVersion old then [] else handleObject c new)"

section \<open>The owner chain resolver\<close>

text \<open>
  \<^verbatim>\<open>metav1.GetControllerOf\<close> of apimachinery: the first owner reference whose
  \<^verbatim>\<open>Controller\<close> pointer is set and true.
\<close>

fun GetControllerOf :: "metaObject \<Rightarrow> ownerReference option" where
  "GetControllerOf object =
     List.find (\<lambda>r. ref_controller r \<noteq> None \<and> ref_controller r = Some True)
       (obj_ownerReferences object)"

definition lowercaseAndPluralise :: "env \<Rightarrow> string \<Rightarrow> string" where
  "lowercaseAndPluralise c s = pluralNamer c s"

text \<open>
  \<^verbatim>\<open>getOriginControllerObject\<close> recurses along the controller references of live objects,
  with no bound on the depth: on a cyclic ownership it never returns, which is the value
  \<open>None\<close> here. The events of the calls made so far are threaded through.
\<close>

partial_function (option) getOriginControllerObject ::
  "env \<Rightarrow> runtimeObject \<Rightarrow> string \<Rightarrow> event list
     \<Rightarrow> ((error + controllerObject) outcome \<times> event list) option"
where
  "getOriginControllerObject c obj knd evs =
     (case obj of
        NotMetaObject \<Rightarrow> Some (Panicked, evs)
      | MetaObject object \<Rightarrow>
          (case GetControllerOf object of
             Some ownerRef \<Rightarrow>
               (let req = OwnerGet (lowercaseAndPluralise c (ref_kind ownerRef))
                            (obj_namespace object) (ref_name ownerRef)
                in case ownerGet c (lowercaseAndPluralise c (ref_kind ownerRef))
                          (obj_namespace object) (ref_name ownerRef) of
                     Inl err \<Rightarrow> Some (Returned (Inl err), evs @ [req])
                   | Inr res \<Rightarrow>
                       getOriginControllerObject c res (ref_kind ownerRef) (evs @ [req]))
           | None \<Rightarrow>
               Some (Returned (Inr \<lparr>kind = knd, name = obj_name object,
                                    namespace = obj_namespace object\<rparr>), evs)))"

section \<open>The patch builder and applier\<close>

text \<open>
  \<^verbatim>\<open>fmt.Sprintf\<close> with one string operand, for a format whose only verb is one \<^verbatim>\<open>%s\<close>:
  the text before the verb, the operand, the text after it.
\<close>

fun Sprintf :: "string \<Rightarrow> string \<Rightarrow> string" where
  "Sprintf [] a = []"
| "Sprintf [x] a = [x]"
| "Sprintf (x # y # fmt) a =
     (if x = CHR ''%'' \<and> y = CHR ''s'' then a @ fmt else x # Sprintf (y # fmt) a)"

definition patchToControllerObject :: "env \<Rightarrow> controllerObject \<Rightarrow> string \<Rightarrow> error option \<times> event list" where
  "patchToControllerObject c obj patch =
     (let resource = lowercaseAndPluralise c (kind obj)
      in (case doPatch c (namespace obj) resource (name obj) patch of
            Some err \<Rightarrow> (Some err, [Patch (namespace obj) resource (name obj) patch])
          | None \<Rightarrow> (None, [Patch (namespace obj) resource (name obj) patch])))"

section \<open>The reconciler\<close>

text \<open>\<^verbatim>\<open>strings.Split(key, "/")\<close>: the empty string splits into one empty part.\<close>

fun splitSlash :: "string \<Rightarrow> string list" where
  "splitSlash [] = [[]]"
| "splitSlash (x # xs) =
     (if x = CHR ''/'' then [] # splitSlash xs
      else (case splitSlash xs of [] \<Rightarrow> [[x]] | part # parts \<Rightarrow> (x # part) # parts))"

text \<open>\<^verbatim>\<open>cache.SplitMetaNamespaceKey\<close> of client-go: one part is a name, two are namespace and name.\<close>

definition SplitMetaNamespaceKey :: "string \<Rightarrow> error + (string \<times> string)" where
  "SplitMetaNamespaceKey key =
     (case splitSlash key of
        [nm] \<Rightarrow> Inr ('''', nm)
      | [ns, nm] \<Rightarrow> Inr (ns, nm)
      | _ \<Rightarrow> Inl (ApiError (''unexpected key format: '' @ key)))"

definition archLabel :: "node \<Rightarrow> string" where
  "archLabel n = (case labels n ''beta.kubernetes.io/arch'' of None \<Rightarrow> '''' | Some v \<Rightarrow> v)"

definition reSchedulePod :: "env \<Rightarrow> string \<Rightarrow> (error option outcome \<times> event list) option" where
  "reSchedulePod c key =
     (case SplitMetaNamespaceKey key of
        Inl err \<Rightarrow> Some (Returned None, [HandleError (InvalidResourceKey key)])
      | Inr (ns, nm) \<Rightarrow>
          (case podGet c ns nm of
             Inl err \<Rightarrow>
               (if IsNotFound err
                then Some (Returned None, [PodLookup ns nm, HandleError (PodNoLongerExists key)])
                else Some (Returned (Some err), [PodLookup ns nm]))
           | Inr p \<Rightarrow>
               (case getOriginControllerObject c (MetaObject (podObject p)) (pod_kind p)
                       [PodLookup ns nm] of
                  None \<Rightarrow> None
                | Some (Panicked, evs) \<Rightarrow> Some (Panicked, evs)
                | Some (Returned (Inl err), evs) \<Rightarrow> Some (Returned (Some err), evs)
                | Some (Returned (Inr cobj), evs) \<Rightarrow>
                    (case nodeGet c (nodeName p) of
                       Inl err \<Rightarrow> Some (Returned (Some err), evs @ [NodeGet (nodeName p)])
                     | Inr n \<Rightarrow>
                         (let patchString = Sprintf patchJSON (archLabel n)
                          in case patchToControllerObject c cobj patchString of
                               (Some err, evs') \<Rightarrow>
                                 Some (Returned (Some err), evs @ NodeGet (nodeName p) # evs')
                             | (None, evs') \<Rightarrow>
                                 Some (Returned None, evs @ NodeGet (nodeName p) # evs'))))))"

text \<open>
  \<^verbatim>\<open>processEnqueuedItem\<close>, given what \<^verbatim>\<open>workqueue.Get\<close> returned. The deferred
  \<^verbatim>\<open>workqueue.Done\<close> runs when the inner function returns or panics, before
  \<^verbatim>\<open>runtime.HandleError\<close> reports the returned error.
\<close>

definition processEnqueuedItem :: "env \<Rightarrow> item \<times> bool \<Rightarrow> (bool outcome \<times> event list) option" where
  "processEnqueuedItem c got =
     (case got of (obj, shutdown) \<Rightarrow>
        if shutdown then Some (Returned False, [])
        else (case obj of
                OtherItem v \<Rightarrow>
                  Some (Returned True,
                        [QueueForget obj, HandleError (NotAString obj), QueueDone obj])
              | StringItem key \<Rightarrow>
                  (case reSchedulePod c key of
                     None \<Rightarrow> None
                   | Some (Panicked, evs) \<Rightarrow> Some (Panicked, evs @ [QueueDone obj])
                   | Some (Returned (Some err), evs) \<Rightarrow>
                       Some (Returned True,
                             evs @ [QueueAddRateLimited key, QueueDone obj,
                                    HandleError (FailedToPatch key err)])
                   | Some (Returned None, evs) \<Rightarrow>
                       Some (Returned True,
                             evs @ [QueueForget obj, Klog (SuccessfullyPatched key),
                                    QueueDone obj]))))"

text \<open>
  The loop \<^verbatim>\<open>for c.processEnqueuedItem() {}\<close> of \<^verbatim>\<open>Run\<close>, over the successive results of
  \<^verbatim>\<open>workqueue.Get\<close>; when they are used up the worker is blocked in \<^verbatim>\<open>Get\<close>.
\<close>

datatype worker = Blocked | Exited | Crashed

fun runLoop :: "env \<Rightarrow> (item \<times> bool) list \<Rightarrow> (worker \<times> event list) option" where
  "runLoop c [] = Some (Blocked, [])"
| "runLoop c (got # gots) =
     (case processEnqueuedItem c got of
        None \<Rightarrow> None
      | Some (Panicked, evs) \<Rightarrow> Some (Crashed, evs)
      | Some (Returned continue, evs) \<Rightarrow>
          (if continue
           then (case runLoop c gots of
                   None \<Rightarrow> None
                 | Some (w, evs') \<Rightarrow> Some (w, evs @ evs'))
           else Some (Exited, evs)))"

section \<open>Vocabulary of the properties\<close>

text \<open>The container's log was read to its end and is the signature, byte for byte.\<close>

definition logMatches :: "env \<Rightarrow> pod \<Rightarrow> string \<Rightarrow> bool" where
  "logMatches c p ct =
     (case streamLogs c (pod_namespace p) (pod_name p) ct of
        Streamed buf closed \<Rightarrow> buf = errorMessage
      | _ \<Rightarrow> False)"

text \<open>The container's log could not be fetched, or could not be read to its end.\<close>

definition logFails :: "env \<Rightarrow> pod \<Rightarrow> string \<Rightarrow> bool" where
  "logFails c p ct =
     (case streamLogs c (pod_namespace p) (pod_name p) ct of
        Streamed buf closed \<Rightarrow> False
      | _ \<Rightarrow> True)"

text \<open>The containers whose log the events fetch, in order.\<close>

fun fetched :: "event list \<Rightarrow> string list" where
  "fetched [] = []"
| "fetched (GetLogs ns nm ct # evs) = ct # fetched evs"
| "fetched (e # evs) = fetched evs"

fun isQueueAdd :: "event \<Rightarrow> bool" where
  "isQueueAdd (QueueAdd key) = True"
| "isQueueAdd e = False"

text \<open>The names of the containers whose status is waiting with the crash-loop reason.\<close>

definition crashLoopContainers :: "pod \<Rightarrow> string list" where
  "crashLoopContainers p = map cs_name (filter crashLooping (containerStatuses p))"

text \<open>What \<^verbatim>\<open>handleObject\<close> writes to the log after fetching one container's log stream.\<close>

fun streamNotes :: "logStream \<Rightarrow> event list" where
  "streamNotes (StreamFailed err) = [Klog (FailedToGetLogs err)]"
| "streamNotes (ReadFailed buf err) = [Klog (FailedToReadLogs err)]"
| "streamNotes (Streamed buf closed) =
     (if length buf = 0 then [Klog EmptyLog] else []) @ (if closed then [] else [Klog FailedToCloseBody])"

section \<open>Example clusters\<close>

text \<open>
  The pod \<^verbatim>\<open>ns/pod-a\<close> is owned by the ReplicaSet \<^verbatim>\<open>rs-a\<close>, which is owned by the Deployment
  \<^verbatim>\<open>deploy-a\<close>; its only container is crash-looping with the signature in its log, on a node of
  architecture \<^verbatim>\<open>arm64\<close>.
\<close>

definition controllerRef :: "string \<Rightarrow> string \<Rightarrow> ownerReference" where
  "controllerRef k n = \<lparr>ref_kind = k, ref_name = n, ref_controller = Some True\<rparr>"

definition podA :: pod where
  "podA = \<lparr>pod_kind = '''', pod_namespace = ''ns'', pod_name = ''pod-a'',
           pod_ownerReferences = [controllerRef ''ReplicaSet'' ''rs-a''],
           resourceVersion = ''2'', nodeName = ''node-1'',
           containers = [''app''],
           containerStatuses = [\<lparr>cs_name = ''app'', waiting = Some ''CrashLoopBackOff''\<rparr>]\<rparr>"

definition rsA :: metaObject where
  "rsA = \<lparr>obj_name = ''rs-a'', obj_namespace = ''ns'',
          obj_ownerReferences = [controllerRef ''Deployment'' ''deploy-a'']\<rparr>"

definition deployA :: metaObject where
  "deployA = \<lparr>obj_name = ''deploy-a'', obj_namespace = ''ns'', obj_ownerReferences = []\<rparr>"

definition plural :: "string \<Rightarrow> string" where
  "plural s = (if s = ''ReplicaSet'' then ''replicasets''
               else if s = ''Deployment'' then ''deployments'' else s)"

definition clusterA :: env where
  "clusterA = \<lparr>
     streamLogs = (\<lambda>ns nm ct.
        if ct = ''app'' then Streamed errorMessage True
        else StreamFailed (NotFound ct)),
     podGet = (\<lambda>ns nm.
        if ns = ''ns'' \<and> nm = ''pod-a'' then Inr podA else Inl (NotFound nm)),
     ownerGet = (\<lambda>res ns nm.
        if res = ''replicasets'' \<and> ns = ''ns'' \<and> nm = ''rs-a'' then Inr (MetaObject rsA)
        else if res = ''deployments'' \<and> ns = ''ns'' \<and> nm = ''deploy-a''
        then Inr (MetaObject deployA)
        else Inl (NotFound nm)),
     nodeGet = (\<lambda>nm.
        if nm = ''node-1''
        then Inr \<lparr>node_name = ''node-1'',
                  labels = [''beta.kubernetes.io/arch'' \<mapsto> ''arm64'']\<rparr>
        else Inl (NotFound nm)),
     doPatch = (\<lambda>ns res nm body. None),
     pluralNamer = plural\<rparr>"

text \<open>
  A pod with two containers: \<^verbatim>\<open>app\<close> is crash-looping for another reason, the sidecar runs
  and has the signature in its log.
\<close>

definition podB :: pod where
  "podB = \<lparr>pod_kind = '''', pod_namespace = ''ns'', pod_name = ''pod-b'',
           pod_ownerReferences = [],
           resourceVersion = ''7'', nodeName = ''node-1'',
           containers = [''app'', ''sidecar''],
           containerStatuses = [\<lparr>cs_name = ''app'', waiting = Some ''CrashLoopBackOff''\<rparr>,
                                \<lparr>cs_name = ''sidecar'', waiting = None\<rparr>]\<rparr>"

definition clusterB :: env where
  "clusterB = clusterA\<lparr>
     streamLogs := (\<lambda>ns nm ct.
        if ct = ''app'' then Streamed (''some other crash'' @ [CHR 0x0A]) True
        else if ct = ''sidecar'' then Streamed errorMessage True
        else StreamFailed (NotFound ct))\<rparr>"

text \<open>The same pod when reading the log of \<^verbatim>\<open>app\<close> breaks at the end of the signature.\<close>

definition clusterC :: env where
  "clusterC = clusterA\<lparr>
     streamLogs := (\<lambda>ns nm ct.
        if ct = ''app'' then ReadFailed errorMessage (ApiError ''reset'')
        else if ct = ''sidecar'' then Streamed errorMessage True
        else StreamFailed (NotFound ct))\<rparr>"

text \<open>The cluster of \<^verbatim>\<open>pod-a\<close> when the read of the Deployment times out.\<close>

definition clusterD :: env where
  "clusterD = clusterA\<lparr>
     ownerGet := (\<lambda>res ns nm.
        if res = ''replicasets'' \<and> ns = ''ns'' \<and> nm = ''rs-a'' then Inr (MetaObject rsA)
        else Inl (ApiError ''timeout''))\<rparr>"

text \<open>The cluster of \<^verbatim>\<open>pod-a\<close> when the read of the ReplicaSet returns no \<^verbatim>\<open>metav1.Object\<close>.\<close>

definition clusterP :: env where
  "clusterP = clusterA\<lparr>ownerGet := (\<lambda>res ns nm. Inr NotMetaObject)\<rparr>"

definition chainA :: "(ownerReference \<times> metaObject) list" where
  "chainA = [(controllerRef ''ReplicaSet'' ''rs-a'', rsA),
             (controllerRef ''Deployment'' ''deploy-a'', deployA)]"

text \<open>The cluster of \<^verbatim>\<open>pod-a\<close> when the node cannot be read, and when the patch is refused.\<close>

definition clusterN :: env where
  "clusterN = clusterA\<lparr>nodeGet := (\<lambda>nm. Inl (ApiError ''node unreachable''))\<rparr>"

definition clusterF :: env where
  "clusterF = clusterA\<lparr>doPatch := (\<lambda>ns res nm body. Some (ApiError ''forbidden''))\<rparr>"
text \<open>A cluster where the ReplicaSet \<^verbatim>\<open>rs-a\<close> names itself as its controller.\<close>

definition rsLoop :: metaObject where
  "rsLoop = \<lparr>obj_name = ''rs-a'', obj_namespace = ''ns'',
             obj_ownerReferences = [controllerRef ''ReplicaSet'' ''rs-a'']\<rparr>"

definition clusterO :: env where
  "clusterO = clusterA\<lparr>ownerGet := (\<lambda>res ns nm. Inr (MetaObject rsLoop))\<rparr>"

text \<open>
  An owner chain from an object: the hops are the controller reference followed and the
  owner that the read of it returns. The chain is in the cluster when every hop is what
  \<^verbatim>\<open>GetControllerOf\<close> and the read give.
\<close>

fun follows :: "env \<Rightarrow> metaObject \<Rightarrow> (ownerReference \<times> metaObject) list \<Rightarrow> bool" where
  "follows c object [] = True"
| "follows c object ((r, owner) # hops) =
     (GetControllerOf object = Some r \<and>
      ownerGet c (lowercaseAndPluralise c (ref_kind r)) (obj_namespace object) (ref_name r)
        = Inr (MetaObject owner) \<and>
      follows c owner hops)"

text \<open>The reads of the owners along a chain.\<close>

fun requests :: "env \<Rightarrow> metaObject \<Rightarrow> (ownerReference \<times> metaObject) list \<Rightarrow> event list" where
  "requests c object [] = []"
| "requests c object ((r, owner) # hops) =
     OwnerGet (lowercaseAndPluralise c (ref_kind r)) (obj_namespace object) (ref_name r)
       # requests c owner hops"

text \<open>
  The last object of a chain, and the kind under which it was reached: the kind of the
  last reference followed, or the kind declared by the caller when there is no hop.
\<close>

definition terminal :: "metaObject \<Rightarrow> (ownerReference \<times> metaObject) list \<Rightarrow> metaObject" where
  "terminal object hops = last (object # map snd hops)"

definition terminalKind :: "string \<Rightarrow> (ownerReference \<times> metaObject) list \<Rightarrow> string" where
  "terminalKind knd hops = last (knd # map (\<lambda>h. ref_kind (fst h)) hops)"

fun isOwnerGet :: "event \<Rightarrow> bool" where
  "isOwnerGet (OwnerGet res ns nm) = True"
| "isOwnerGet e = False"

text \<open>
  Two conditions on the cluster, for a walk that starts at an object. In the first the
  walk comes, within \<open>n\<close> reads of an owner, to an object with no controller reference
  or to a read that fails, and every read before that returns a \<^verbatim>\<open>metav1.Object\<close>. In the
  second it comes, within \<open>n\<close> reads, to a read that returns an object that is no
  \<^verbatim>\<open>metav1.Object\<close>.
\<close>

fun walkReturns :: "env \<Rightarrow> nat \<Rightarrow> metaObject \<Rightarrow> bool" where
  "walkReturns c 0 object =
     (case GetControllerOf object of
        None \<Rightarrow> True
      | Some r \<Rightarrow>
          (case ownerGet c (lowercaseAndPluralise c (ref_kind r)) (obj_namespace object) (ref_name r) of
             Inl err \<Rightarrow> True
           | Inr res \<Rightarrow> False))"
| "walkReturns c (Suc n) object =
     (case GetControllerOf object of
        None \<Rightarrow> True
      | Some r \<Rightarrow>
          (case ownerGet c (lowercaseAndPluralise c (ref_kind r)) (obj_namespace object) (ref_name r) of
             Inl err \<Rightarrow> True
           | Inr NotMetaObject \<Rightarrow> False
           | Inr (MetaObject owner) \<Rightarrow> walkReturns c n owner))"

fun walkPanics :: "env \<Rightarrow> nat \<Rightarrow> metaObject \<Rightarrow> bool" where
  "walkPanics c 0 object =
     (case GetControllerOf object of
        None \<Rightarrow> False
      | Some r \<Rightarrow>
          (case ownerGet c (lowercaseAndPluralise c (ref_kind r)) (obj_namespace object) (ref_name r) of
             Inl err \<Rightarrow> False
           | Inr NotMetaObject \<Rightarrow> True
           | Inr (MetaObject owner) \<Rightarrow> False))"
| "walkPanics c (Suc n) object =
     (case GetControllerOf object of
        None \<Rightarrow> False
      | Some r \<Rightarrow>
          (case ownerGet c (lowercaseAndPluralise c (ref_kind r)) (obj_namespace object) (ref_name r) of
             Inl err \<Rightarrow> False
           | Inr NotMetaObject \<Rightarrow> True
           | Inr (MetaObject owner) \<Rightarrow> walkPanics c n owner))"

text \<open>
  The same for a dequeued item. An item that is no string, a key that does not split and
  a key whose pod the lister does not return start no walk.
\<close>

definition itemReturns :: "env \<Rightarrow> nat \<Rightarrow> item \<Rightarrow> bool" where
  "itemReturns c n obj =
     (case obj of
        OtherItem v \<Rightarrow> True
      | StringItem key \<Rightarrow>
          (case SplitMetaNamespaceKey key of
             Inl err \<Rightarrow> True
           | Inr (ns, nm) \<Rightarrow>
               (case podGet c ns nm of
                  Inl err \<Rightarrow> True
                | Inr p \<Rightarrow> walkReturns c n (podObject p))))"

definition itemPanics :: "env \<Rightarrow> nat \<Rightarrow> item \<Rightarrow> bool" where
  "itemPanics c n obj =
     (case obj of
        OtherItem v \<Rightarrow> False
      | StringItem key \<Rightarrow>
          (case SplitMetaNamespaceKey key of
             Inl err \<Rightarrow> False
           | Inr (ns, nm) \<Rightarrow>
               (case podGet c ns nm of
                  Inl err \<Rightarrow> False
                | Inr p \<Rightarrow> walkPanics c n (podObject p))))"

fun isQueueDone :: "event \<Rightarrow> bool" where
  "isQueueDone (QueueDone obj) = True"
| "isQueueDone e = False"

text \<open>The two verdicts on an item: \<^verbatim>\<open>Forget\<close> and \<^verbatim>\<open>AddRateLimited\<close>.\<close>

fun isVerdict :: "event \<Rightarrow> bool" where
  "isVerdict (QueueForget obj) = True"
| "isVerdict (QueueAddRateLimited key) = True"
| "isVerdict e = False"

text \<open>What the loop of \<^verbatim>\<open>Run\<close> does after an item whose events are \<open>evs\<close>, when it goes on.\<close>

definition andThen :: "event list \<Rightarrow> (worker \<times> event list) option \<Rightarrow> (worker \<times> event list) option" where
  "andThen evs rest = (case rest of None \<Rightarrow> None | Some (w, evs') \<Rightarrow> Some (w, evs @ evs'))"

section \<open>Reading a patch document\<close>

text \<open>
  The API server reads the body of a patch as JSON. The reader below covers what the
  template uses: objects, arrays and strings without escape sequences, separated by
  white space. A string ends at the first double quote; a backslash or a control
  character inside a string is not accepted.
\<close>

datatype json = JString string | JArray "json list" | JObject "(string \<times> json) list"

datatype token = LBrace | RBrace | LBracket | RBracket | Colon | Comma | Str string

definition jsonSafeChar :: "char \<Rightarrow> bool" where
  "jsonSafeChar x = (x \<noteq> CHR 0x22 \<and> x \<noteq> CHR 0x5C \<and> (32::nat) \<le> of_char x)"

text \<open>The first argument is \<open>None\<close> between tokens, and the characters of the string being read, last first, inside a string.\<close>

fun lexer :: "string option \<Rightarrow> string \<Rightarrow> token list option" where
  "lexer None [] = Some []"
| "lexer (Some acc) [] = None"
| "lexer None (x # xs) =
     (if x = CHR '' '' \<or> x = CHR 0x0A \<or> x = CHR 0x0D \<or> x = CHR 0x09 then lexer None xs
      else if x = CHR ''{'' then map_option (Cons LBrace) (lexer None xs)
      else if x = CHR ''}'' then map_option (Cons RBrace) (lexer None xs)
      else if x = CHR ''['' then map_option (Cons LBracket) (lexer None xs)
      else if x = CHR '']'' then map_option (Cons RBracket) (lexer None xs)
      else if x = CHR '':'' then map_option (Cons Colon) (lexer None xs)
      else if x = CHR '','' then map_option (Cons Comma) (lexer None xs)
      else if x = CHR 0x22 then lexer (Some []) xs
      else None)"
| "lexer (Some acc) (x # xs) =
     (if x = CHR 0x22 then map_option (Cons (Str (rev acc))) (lexer None xs)
      else if jsonSafeChar x then lexer (Some (x # acc)) xs
      else None)"

text \<open>Recursive descent over the tokens; the first argument bounds the depth of the calls.\<close>

fun parseValue :: "nat \<Rightarrow> token list \<Rightarrow> (json \<times> token list) option"
  and parseElements :: "nat \<Rightarrow> token list \<Rightarrow> (json list \<times> token list) option"
  and parseMembers :: "nat \<Rightarrow> token list \<Rightarrow> ((string \<times> json) list \<times> token list) option"
where
  "parseValue 0 ts = None"
| "parseValue (Suc k) ts =
     (case ts of
        Str s # ts' \<Rightarrow> Some (JString s, ts')
      | LBracket # RBracket # ts' \<Rightarrow> Some (JArray [], ts')
      | LBracket # ts' \<Rightarrow>
          (case parseElements k ts' of
             None \<Rightarrow> None
           | Some (vs, ts'') \<Rightarrow> Some (JArray vs, ts''))
      | LBrace # RBrace # ts' \<Rightarrow> Some (JObject [], ts')
      | LBrace # ts' \<Rightarrow>
          (case parseMembers k ts' of
             None \<Rightarrow> None
           | Some (ms, ts'') \<Rightarrow> Some (JObject ms, ts''))
      | _ \<Rightarrow> None)"
| "parseElements 0 ts = None"
| "parseElements (Suc k) ts =
     (case parseValue k ts of
        Some (v, Comma # ts') \<Rightarrow>
          (case parseElements k ts' of
             None \<Rightarrow> None
           | Some (vs, ts'') \<Rightarrow> Some (v # vs, ts''))
      | Some (v, RBracket # ts') \<Rightarrow> Some ([v], ts')
      | _ \<Rightarrow> None)"
| "parseMembers 0 ts = None"
| "parseMembers (Suc k) ts =
     (case ts of
        Str key # Colon # ts' \<Rightarrow>
          (case parseValue k ts' of
             Some (v, Comma # ts'') \<Rightarrow>
               (case parseMembers k ts'' of
                  None \<Rightarrow> None
                | Some (ms, ts''') \<Rightarrow> Some ((key, v) # ms, ts'''))
           | Some (v, RBrace # ts'') \<Rightarrow> Some ([(key, v)], ts'')
           | _ \<Rightarrow> None)
      | _ \<Rightarrow> None)"

definition readJSON :: "string \<Rightarrow> json option" where
  "readJSON s =
     (case lexer None s of
        None \<Rightarrow> None
      | Some ts \<Rightarrow>
          (case parseValue (length ts) ts of
             Some (v, []) \<Rightarrow> Some v
           | _ \<Rightarrow> None))"

text \<open>
  The document of the affinity exclusion: the pod template requires, during scheduling,
  a node whose label \<^verbatim>\<open>beta.kubernetes.io/arch\<close> is not in the set of the one value \<open>v\<close>.
\<close>

definition affinityPatch :: "string \<Rightarrow> json" where
  "affinityPatch v =
     JObject [(''spec'', JObject [(''template'', JObject [(''spec'', JObject [
       (''affinity'', JObject [(''nodeAffinity'', JObject [
          (''requiredDuringSchedulingIgnoredDuringExecution'', JObject [
             (''nodeSelectorTerms'', JArray [JObject [
                (''matchExpressions'', JArray [JObject [
                   (''key'', JString ''beta.kubernetes.io/arch''),
                   (''operator'', JString ''NotIn''),
                   (''values'', JArray [JString v])]])]])])])])])])])]"

text \<open>The characters of a Kubernetes label value: letters, digits, dash, underscore, dot.\<close>

definition labelChar :: "char \<Rightarrow> bool" where
  "labelChar x =
     (x \<in> set ''abcdefghijklmnopqrstuvwxyzABCDEFGHIJKLMNOPQRSTUVWXYZ0123456789-_.'')"

section \<open>The failure classifier\<close>

lemma fetched_append: "fetched (xs @ ys) = fetched xs @ fetched ys"
  by (induction xs rule: fetched.induct) simp_all

lemma enqueuePod_key:
  "MetaNamespaceKeyFunc p = Inr key \<Longrightarrow> enqueuePod p = [QueueAdd key]"
  by (simp add: enqueuePod_def)

lemma MetaNamespaceKeyFunc_total: "\<exists>key. MetaNamespaceKeyFunc p = Inr key"
  by (simp add: MetaNamespaceKeyFunc_def)

lemma fetched_enqueuePod: "fetched (enqueuePod p) = []"
  using MetaNamespaceKeyFunc_total [of p] by (auto simp: enqueuePod_def)

lemma queueAdd_enqueuePod: "filter isQueueAdd (enqueuePod p) = enqueuePod p"
  using MetaNamespaceKeyFunc_total [of p] by (auto simp: enqueuePod_def)

lemma fetched_streamNotes: "fetched (streamNotes s) = []"
  by (cases s) simp_all

lemma queueAdd_streamNotes: "filter isQueueAdd (streamNotes s) = []"
  by (cases s) simp_all

lemma scanContainers_step:
  "scanContainers c p (ct # cts) =
     (if logMatches c p ct
      then (True, GetLogs (pod_namespace p) (pod_name p) ct
                  # streamNotes (streamLogs c (pod_namespace p) (pod_name p) ct) @ enqueuePod p)
      else (fst (scanContainers c p cts),
            GetLogs (pod_namespace p) (pod_name p) ct
              # streamNotes (streamLogs c (pod_namespace p) (pod_name p) ct)
              @ snd (scanContainers c p cts)))"
  by (cases "streamLogs c (pod_namespace p) (pod_name p) ct")
     (simp_all add: logMatches_def Let_def split: prod.splits)

lemma scanContainers_fst:
  "fst (scanContainers c p cts) = (\<exists>ct\<in>set cts. logMatches c p ct)"
proof (induction cts)
  case Nil
  show ?case by simp
next
  case (Cons ct cts)
  then show ?case by (simp only: scanContainers_step) auto
qed

lemma scanContainers_queue:
  "filter isQueueAdd (snd (scanContainers c p cts)) =
     (if \<exists>ct\<in>set cts. logMatches c p ct then enqueuePod p else [])"
proof (induction cts)
  case Nil
  show ?case by simp
next
  case (Cons ct cts)
  then show ?case
    by (simp only: scanContainers_step)
       (simp add: queueAdd_streamNotes queueAdd_enqueuePod)
qed

lemma scanContainers_fetched:
  "fetched (snd (scanContainers c p cts)) =
     (if \<exists>ct\<in>set cts. logMatches c p ct
      then take (Suc (length (takeWhile (\<lambda>ct. \<not> logMatches c p ct) cts))) cts
      else cts)"
proof (induction cts)
  case Nil
  show ?case by simp
next
  case (Cons ct cts)
  then show ?case
    by (simp only: scanContainers_step)
       (simp add: fetched_append fetched_streamNotes fetched_enqueuePod)
qed

lemma scanContainers_last:
  "fst (scanContainers c p cts) \<Longrightarrow>
     \<exists>evs. snd (scanContainers c p cts) = evs @ enqueuePod p"
proof (induction cts)
  case Nil
  then show ?case by simp
next
  case (Cons ct cts)
  let ?g = "GetLogs (pod_namespace p) (pod_name p) ct
              # streamNotes (streamLogs c (pod_namespace p) (pod_name p) ct)"
  show ?case
  proof (cases "logMatches c p ct")
    case True
    then have "snd (scanContainers c p (ct # cts)) = ?g @ enqueuePod p"
      by (simp only: scanContainers_step) simp
    then show ?thesis by blast
  next
    case False
    with Cons.prems have "fst (scanContainers c p cts)"
      by (simp only: scanContainers_step) simp
    from Cons.IH [OF this] obtain evs
      where "snd (scanContainers c p cts) = evs @ enqueuePod p" ..
    with False have "snd (scanContainers c p (ct # cts)) = (?g @ evs) @ enqueuePod p"
      by (simp only: scanContainers_step) simp
    then show ?thesis by blast
  qed
qed

lemma scanStatuses_step:
  "scanStatuses c p (cs # css) =
     (if crashLooping cs then
        (if fst (scanContainers c p (containers p))
         then (True, snd (scanContainers c p (containers p)))
         else (fst (scanStatuses c p css),
               snd (scanContainers c p (containers p)) @ snd (scanStatuses c p css)))
      else scanStatuses c p css)"
  by (cases "scanContainers c p (containers p)"; cases "scanStatuses c p css") auto

lemma scanStatuses_fst:
  "fst (scanStatuses c p css) =
     ((\<exists>cs\<in>set css. crashLooping cs) \<and> (\<exists>ct\<in>set (containers p). logMatches c p ct))"
proof (induction css)
  case Nil
  show ?case by simp
next
  case (Cons cs css)
  then show ?case
    by (simp only: scanStatuses_step) (auto simp: scanContainers_fst)
qed

lemma scanStatuses_queue:
  "filter isQueueAdd (snd (scanStatuses c p css)) =
     (if (\<exists>cs\<in>set css. crashLooping cs) \<and> (\<exists>ct\<in>set (containers p). logMatches c p ct)
      then enqueuePod p else [])"
proof (induction css)
  case Nil
  show ?case by simp
next
  case (Cons cs css)
  then show ?case
    by (simp only: scanStatuses_step)
       (simp add: scanContainers_fst scanContainers_queue)
qed

lemma scanStatuses_fetched:
  "fetched (snd (scanStatuses c p css)) =
     (if \<exists>ct\<in>set (containers p). logMatches c p ct
      then (if \<exists>cs\<in>set css. crashLooping cs
            then take (Suc (length (takeWhile (\<lambda>ct. \<not> logMatches c p ct) (containers p))))
                   (containers p)
            else [])
      else concat (replicate (length (filter crashLooping css)) (containers p)))"
proof (induction css)
  case Nil
  show ?case by simp
next
  case (Cons cs css)
  then show ?case
    by (simp only: scanStatuses_step)
       (simp add: scanContainers_fst scanContainers_fetched fetched_append)
qed

lemma scanStatuses_last:
  "fst (scanStatuses c p css) \<Longrightarrow> \<exists>evs. snd (scanStatuses c p css) = evs @ enqueuePod p"
proof (induction css)
  case Nil
  then show ?case by simp
next
  case (Cons cs css)
  show ?case
  proof (cases "crashLooping cs")
    case False
    with Cons show ?thesis by (simp only: scanStatuses_step) simp
  next
    case True
    note loop = this
    show ?thesis
    proof (cases "fst (scanContainers c p (containers p))")
      case True
      from scanContainers_last [OF this] obtain evs
        where "snd (scanContainers c p (containers p)) = evs @ enqueuePod p" ..
      with True loop have "snd (scanStatuses c p (cs # css)) = evs @ enqueuePod p"
        by (simp only: scanStatuses_step) simp
      then show ?thesis by blast
    next
      case False
      with Cons.prems loop have "fst (scanStatuses c p css)"
        by (simp only: scanStatuses_step) simp
      from Cons.IH [OF this] obtain evs
        where e: "snd (scanStatuses c p css) = evs @ enqueuePod p" ..
      have "snd (scanStatuses c p (cs # css)) =
              (snd (scanContainers c p (containers p)) @ evs) @ enqueuePod p"
        using False loop e by (simp only: scanStatuses_step) simp
      then show ?thesis by blast
    qed
  qed
qed

lemma scanStatuses_idle:
  "\<not> (\<exists>cs\<in>set css. crashLooping cs) \<Longrightarrow> scanStatuses c p css = (False, [])"
  by (induction css) auto

text \<open>
  C1, as the code has it. \<^verbatim>\<open>handleObject\<close> enqueues the pod, once, exactly when some
  container status is waiting with the reason \<^verbatim>\<open>CrashLoopBackOff\<close> and the log of some
  container of the pod's spec, read to its end, is equal to the signature byte for byte.
  Any other text (empty, shorter, longer, different in one byte) is no match for its
  container: the test is equality and never a search for a substring. The log that
  matches need not be the log of the crash-looping container.
\<close>

theorem handleObject_enqueues_iff_signature:
  assumes "MetaNamespaceKeyFunc p = Inr key"
  shows "filter isQueueAdd (handleObject c p) =
           (if (\<exists>cs\<in>set (containerStatuses p). crashLooping cs) \<and>
               (\<exists>ct\<in>set (containers p). \<exists>closed.
                  streamLogs c (pod_namespace p) (pod_name p) ct = Streamed errorMessage closed)
            then [QueueAdd key] else [])"
proof -
  have "logMatches c p ct =
          (\<exists>closed. streamLogs c (pod_namespace p) (pod_name p) ct = Streamed errorMessage closed)"
    for ct
    by (cases "streamLogs c (pod_namespace p) (pod_name p) ct") (auto simp: logMatches_def)
  then show ?thesis
    using scanStatuses_queue [of c p "containerStatuses p"] enqueuePod_key [OF assms]
    by (simp add: handleObject_def)
qed

theorem handleObject_enqueues_iff_signature_witness:
  "MetaNamespaceKeyFunc podA = Inr ''ns/pod-a'' \<and>
   filter isQueueAdd (handleObject clusterA podA) = [QueueAdd ''ns/pod-a'']"
proof -
  have k: "MetaNamespaceKeyFunc podA = Inr ''ns/pod-a''"
    by (simp add: MetaNamespaceKeyFunc_def podA_def)
  have l: "\<exists>cs\<in>set (containerStatuses podA). crashLooping cs"
    by (simp add: podA_def crashLooping_def)
  have m: "\<exists>ct\<in>set (containers podA). \<exists>closed.
             streamLogs clusterA (pod_namespace podA) (pod_name podA) ct = Streamed errorMessage closed"
    by (auto simp: podA_def clusterA_def)
  show ?thesis
    using k l m handleObject_enqueues_iff_signature [OF k, of clusterA] by simp
qed

text \<open>
  C1 as stated fails: the log of the crash-looping container \<^verbatim>\<open>app\<close> is not the signature,
  and the pod is enqueued all the same, for the log of the running sidecar.
\<close>

theorem handleObject_other_log_counterexample:
  "crashLoopContainers podB = [''app''] \<and>
   streamLogs clusterB ''ns'' ''pod-b'' ''app'' = Streamed (''some other crash'' @ [CHR 0x0A]) True \<and>
   ''some other crash'' @ [CHR 0x0A] \<noteq> errorMessage \<and>
   handleObject clusterB podB =
     [GetLogs ''ns'' ''pod-b'' ''app'', GetLogs ''ns'' ''pod-b'' ''sidecar'', QueueAdd ''ns/pod-b'']"
  by (simp add: crashLoopContainers_def crashLooping_def podB_def clusterB_def clusterA_def
        handleObject_def errorMessage_def enqueuePod_def MetaNamespaceKeyFunc_def)

text \<open>
  C3, as the code has it. \<^verbatim>\<open>handleObject\<close> makes no call at all unless some container status
  is waiting with the reason \<^verbatim>\<open>CrashLoopBackOff\<close>. For each such status it fetches the logs
  of the containers of the pod's spec, in their order, all of them and not only the
  crash-looping ones. The scan stops at the first container whose log is the signature:
  that container is the last one fetched, and the enqueueing is the last event.
\<close>

theorem handleObject_scan_order:
  "(\<not> (\<exists>cs\<in>set (containerStatuses p). crashLooping cs) \<longrightarrow> handleObject c p = []) \<and>
   fetched (handleObject c p) =
     (if \<exists>ct\<in>set (containers p). logMatches c p ct
      then (if \<exists>cs\<in>set (containerStatuses p). crashLooping cs
            then take (Suc (length (takeWhile (\<lambda>ct. \<not> logMatches c p ct) (containers p))))
                   (containers p)
            else [])
      else concat (replicate (length (crashLoopContainers p)) (containers p))) \<and>
   ((\<exists>cs\<in>set (containerStatuses p). crashLooping cs) \<and>
    (\<exists>ct\<in>set (containers p). logMatches c p ct) \<longrightarrow>
      (\<exists>evs. handleObject c p = evs @ enqueuePod p))"
proof (intro conjI impI)
  assume "\<not> (\<exists>cs\<in>set (containerStatuses p). crashLooping cs)"
  then show "handleObject c p = []"
    by (simp add: handleObject_def scanStatuses_idle)
next
  show "fetched (handleObject c p) =
     (if \<exists>ct\<in>set (containers p). logMatches c p ct
      then (if \<exists>cs\<in>set (containerStatuses p). crashLooping cs
            then take (Suc (length (takeWhile (\<lambda>ct. \<not> logMatches c p ct) (containers p))))
                   (containers p)
            else [])
      else concat (replicate (length (crashLoopContainers p)) (containers p)))"
    unfolding handleObject_def crashLoopContainers_def length_map
    by (rule scanStatuses_fetched)
next
  assume "(\<exists>cs\<in>set (containerStatuses p). crashLooping cs) \<and>
          (\<exists>ct\<in>set (containers p). logMatches c p ct)"
  then have "fst (scanStatuses c p (containerStatuses p))"
    by (simp only: scanStatuses_fst)
  then show "\<exists>evs. handleObject c p = evs @ enqueuePod p"
    unfolding handleObject_def by (rule scanStatuses_last)
qed

theorem handleObject_scan_order_witness:
  "fetched (handleObject clusterB podB) = [''app'', ''sidecar''] \<and>
   (\<exists>evs. handleObject clusterB podB = evs @ enqueuePod podB)"
proof -
  have l: "\<exists>cs\<in>set (containerStatuses podB). crashLooping cs"
    by (simp add: podB_def crashLooping_def)
  have a: "\<not> logMatches clusterB podB ''app''"
    by (simp add: logMatches_def clusterB_def clusterA_def podB_def errorMessage_def)
  have s: "logMatches clusterB podB ''sidecar''"
    by (simp add: logMatches_def clusterB_def clusterA_def podB_def)
  have cs: "containers podB = [''app'', ''sidecar'']"
    by (simp add: podB_def)
  have m: "\<exists>ct\<in>set (containers podB). logMatches clusterB podB ct"
    using s by (simp add: cs)
  have t: "takeWhile (\<lambda>ct. \<not> logMatches clusterB podB ct) (containers podB) = [''app'']"
    using a s by (simp add: cs)
  show ?thesis
    using l m handleObject_scan_order [of podB clusterB] by (simp add: t) (simp add: cs)
qed

text \<open>
  C3 as stated fails: of the two containers only \<^verbatim>\<open>app\<close> is waiting with the crash-loop
  reason, and the log of the sidecar is fetched too.
\<close>

theorem handleObject_fetches_running_container_counterexample:
  "crashLoopContainers podB = [''app''] \<and>
   fetched (handleObject clusterB podB) = [''app'', ''sidecar'']"
  by (simp add: crashLoopContainers_def crashLooping_def podB_def clusterB_def clusterA_def
        handleObject_def errorMessage_def enqueuePod_def MetaNamespaceKeyFunc_def)

lemma scanContainers_append:
  "\<not> (\<exists>x\<in>set pre. logMatches c p x) \<Longrightarrow>
     scanContainers c p (pre @ rest) =
       (fst (scanContainers c p rest), snd (scanContainers c p pre) @ snd (scanContainers c p rest))"
proof (induction pre)
  case Nil
  show ?case by simp
next
  case (Cons x pre)
  then have "\<not> logMatches c p x" and "\<not> (\<exists>x\<in>set pre. logMatches c p x)"
    by simp_all
  with Cons.IH show ?case
    by (simp only: append_Cons scanContainers_step) simp
qed

lemma logFails_not_logMatches: "logFails c p ct \<Longrightarrow> \<not> logMatches c p ct"
  by (cases "streamLogs c (pod_namespace p) (pod_name p) ct")
     (simp_all add: logFails_def logMatches_def)

lemma logMatches_containers_update [simp]:
  "logMatches c (p\<lparr>containers := cts\<rparr>) = logMatches c p"
  by (rule ext) (simp add: logMatches_def)

text \<open>
  C8. A container whose log stream cannot be opened, or cannot be read to its end, is no
  match, whatever was read of it: the failure is logged, and the scan goes on with the
  containers after it exactly as if it started there. \<^verbatim>\<open>handleObject\<close> has no error to return,
  and what it enqueues does not change when the failing containers are left out of the pod.
\<close>

theorem handleObject_skips_failed_container:
  assumes "streamLogs c (pod_namespace p) (pod_name p) ct = StreamFailed err \<or>
           streamLogs c (pod_namespace p) (pod_name p) ct = ReadFailed buf err"
    and "\<not> (\<exists>x\<in>set pre. logMatches c p x)"
  shows "scanContainers c p (pre @ ct # post) =
           (fst (scanContainers c p post),
            snd (scanContainers c p pre)
              @ GetLogs (pod_namespace p) (pod_name p) ct
              # Klog (if streamLogs c (pod_namespace p) (pod_name p) ct = StreamFailed err
                      then FailedToGetLogs err else FailedToReadLogs err)
              # snd (scanContainers c p post)) \<and>
         filter isQueueAdd (handleObject c p) =
           filter isQueueAdd
             (handleObject c (p\<lparr>containers := filter (\<lambda>x. \<not> logFails c p x) (containers p)\<rparr>))"
proof
  from assms(1) have f: "logFails c p ct"
    by (auto simp: logFails_def)
  from assms(1) have n: "streamNotes (streamLogs c (pod_namespace p) (pod_name p) ct) =
      [Klog (if streamLogs c (pod_namespace p) (pod_name p) ct = StreamFailed err
             then FailedToGetLogs err else FailedToReadLogs err)]"
    by auto
  have "scanContainers c p (ct # post) =
          (fst (scanContainers c p post),
           GetLogs (pod_namespace p) (pod_name p) ct
             # streamNotes (streamLogs c (pod_namespace p) (pod_name p) ct)
             @ snd (scanContainers c p post))"
    using logFails_not_logMatches [OF f] by (simp only: scanContainers_step) simp
  then show "scanContainers c p (pre @ ct # post) =
           (fst (scanContainers c p post),
            snd (scanContainers c p pre)
              @ GetLogs (pod_namespace p) (pod_name p) ct
              # Klog (if streamLogs c (pod_namespace p) (pod_name p) ct = StreamFailed err
                      then FailedToGetLogs err else FailedToReadLogs err)
              # snd (scanContainers c p post))"
    by (simp only: scanContainers_append [OF assms(2)] n) simp
next
  let ?q = "p\<lparr>containers := filter (\<lambda>x. \<not> logFails c p x) (containers p)\<rparr>"
  have "(\<exists>ct\<in>set (containers ?q). logMatches c p ct) = (\<exists>ct\<in>set (containers p). logMatches c p ct)"
    using logFails_not_logMatches [of c p] by auto
  moreover have "enqueuePod ?q = enqueuePod p"
    by (simp add: enqueuePod_def MetaNamespaceKeyFunc_def)
  ultimately show "filter isQueueAdd (handleObject c p) = filter isQueueAdd (handleObject c ?q)"
    by (simp add: handleObject_def scanStatuses_queue)
qed

text \<open>
  An instance: the first container's stream breaks after the whole signature has been read,
  the second container's log is the signature; the first is skipped, the second matches.
\<close>

theorem handleObject_skips_failed_container_witness:
  "scanContainers clusterC podB ([] @ ''app'' # [''sidecar'']) =
     (True, [GetLogs ''ns'' ''pod-b'' ''app'', Klog (FailedToReadLogs (ApiError ''reset'')),
             GetLogs ''ns'' ''pod-b'' ''sidecar'', QueueAdd ''ns/pod-b''])"
proof -
  have f: "streamLogs clusterC (pod_namespace podB) (pod_name podB) ''app'' = StreamFailed (ApiError ''reset'') \<or>
           streamLogs clusterC (pod_namespace podB) (pod_name podB) ''app'' = ReadFailed errorMessage (ApiError ''reset'')"
    by (simp add: clusterC_def)
  have e: "\<not> (\<exists>x\<in>set []. logMatches clusterC podB x)"
    by simp
  have s: "scanContainers clusterC podB [''sidecar''] =
             (True, [GetLogs ''ns'' ''pod-b'' ''sidecar'', QueueAdd ''ns/pod-b''])"
    by (simp add: clusterC_def clusterA_def podB_def errorMessage_def enqueuePod_def
          MetaNamespaceKeyFunc_def)
  have n: "pod_namespace podB = ''ns''" "pod_name podB = ''pod-b''"
    by (simp_all add: podB_def)
  have r: "streamLogs clusterC ''ns'' ''pod-b'' ''app'' \<noteq> StreamFailed (ApiError ''reset'')"
    by (simp add: clusterC_def)
  from handleObject_skips_failed_container [OF f e, of "[''sidecar'']"]
  have "scanContainers clusterC podB ([] @ ''app'' # [''sidecar'']) =
           (fst (scanContainers clusterC podB [''sidecar'']),
            snd (scanContainers clusterC podB [])
              @ GetLogs (pod_namespace podB) (pod_name podB) ''app''
              # Klog (if streamLogs clusterC (pod_namespace podB) (pod_name podB) ''app''
                         = StreamFailed (ApiError ''reset'')
                      then FailedToGetLogs (ApiError ''reset'')
                      else FailedToReadLogs (ApiError ''reset''))
              # snd (scanContainers clusterC podB [''sidecar'']))"
    by (rule conjunct1)
  then show ?thesis
    by (simp only: s n r scanContainers.simps(1) fst_conv snd_conv append_Nil if_False)
qed

text \<open>
  C9. On an update whose old and new pod have the same \<^verbatim>\<open>ResourceVersion\<close> the handler does
  nothing: no log is fetched, nothing is enqueued. Otherwise it does what the handler of
  an added pod does on the new pod, and the key of the new pod is enqueued on a match.
\<close>

theorem UpdateFunc_resourceVersion:
  assumes "MetaNamespaceKeyFunc new = Inr key"
  shows "(resourceVersion new = resourceVersion old \<longrightarrow> UpdateFunc c old new = []) \<and>
         (resourceVersion new \<noteq> resourceVersion old \<longrightarrow>
            UpdateFunc c old new = AddFunc c new \<and>
            filter isQueueAdd (UpdateFunc c old new) =
              (if (\<exists>cs\<in>set (containerStatuses new). crashLooping cs) \<and>
                  (\<exists>ct\<in>set (containers new). logMatches c new ct)
               then [QueueAdd key] else []))"
  using scanStatuses_queue [of c new "containerStatuses new"] enqueuePod_key [OF assms]
  by (simp add: UpdateFunc_def AddFunc_def handleObject_def)

theorem UpdateFunc_resourceVersion_witness:
  "UpdateFunc clusterA (podA\<lparr>resourceVersion := ''1''\<rparr>) podA =
     [GetLogs ''ns'' ''pod-a'' ''app'', QueueAdd ''ns/pod-a''] \<and>
   UpdateFunc clusterA podA podA = []"
proof -
  have k: "MetaNamespaceKeyFunc podA = Inr ''ns/pod-a''"
    by (simp add: MetaNamespaceKeyFunc_def podA_def)
  have d: "resourceVersion podA \<noteq> resourceVersion (podA\<lparr>resourceVersion := ''1''\<rparr>)"
    by (simp add: podA_def)
  have a: "AddFunc clusterA podA = [GetLogs ''ns'' ''pod-a'' ''app'', QueueAdd ''ns/pod-a'']"
    by (simp add: AddFunc_def handleObject_def podA_def clusterA_def crashLooping_def
          enqueuePod_def MetaNamespaceKeyFunc_def errorMessage_def)
  from UpdateFunc_resourceVersion [OF k, of "podA\<lparr>resourceVersion := ''1''\<rparr>" clusterA]
    UpdateFunc_resourceVersion [OF k, of podA clusterA] d a
  show ?thesis by simp
qed

section \<open>The owner chain resolver\<close>

lemma terminal_Cons: "terminal object ((r, owner) # hops) = terminal owner hops"
  by (simp add: terminal_def)

lemma terminalKind_Cons: "terminalKind knd ((r, owner) # hops) = terminalKind (ref_kind r) hops"
  by (simp add: terminalKind_def)

lemma length_requests: "length (filter isOwnerGet (requests c object hops)) = length hops"
  by (induction c object hops rule: requests.induct) simp_all

lemma getOrigin_resolves:
  "follows c object hops \<Longrightarrow> GetControllerOf (terminal object hops) = None \<Longrightarrow>
     getOriginControllerObject c (MetaObject object) knd evs =
       Some (Returned (Inr \<lparr>kind = terminalKind knd hops,
                            name = obj_name (terminal object hops),
                            namespace = obj_namespace (terminal object hops)\<rparr>),
             evs @ requests c object hops)"
proof (induction hops arbitrary: object knd evs)
  case Nil
  then have "GetControllerOf object = None"
    by (simp add: terminal_def)
  then show ?case
    by (subst getOriginControllerObject.simps) (simp add: terminal_def terminalKind_def)
next
  case (Cons h hops)
  obtain r owner where h: "h = (r, owner)"
    by (cases h)
  from Cons.prems h have ref: "GetControllerOf object = Some r"
    and get: "ownerGet c (lowercaseAndPluralise c (ref_kind r)) (obj_namespace object) (ref_name r)
                = Inr (MetaObject owner)"
    and rest: "follows c owner hops"
    and last: "GetControllerOf (terminal owner hops) = None"
    by (simp_all add: terminal_Cons)
  have "getOriginControllerObject c (MetaObject object) knd evs =
          getOriginControllerObject c (MetaObject owner) (ref_kind r)
            (evs @ [OwnerGet (lowercaseAndPluralise c (ref_kind r)) (obj_namespace object) (ref_name r)])"
    by (subst getOriginControllerObject.simps) (simp add: ref get del: GetControllerOf.simps)
  also note Cons.IH [OF rest last]
  finally show ?case
    by (simp add: h terminal_Cons terminalKind_Cons)
qed

lemma getOrigin_fails:
  "follows c object hops \<Longrightarrow> GetControllerOf (terminal object hops) = Some r \<Longrightarrow>
   ownerGet c (lowercaseAndPluralise c (ref_kind r)) (obj_namespace (terminal object hops))
     (ref_name r) = Inl err \<Longrightarrow>
     getOriginControllerObject c (MetaObject object) knd evs =
       Some (Returned (Inl err),
             evs @ requests c object hops
               @ [OwnerGet (lowercaseAndPluralise c (ref_kind r))
                    (obj_namespace (terminal object hops)) (ref_name r)])"
proof (induction hops arbitrary: object knd evs)
  case Nil
  then have "GetControllerOf object = Some r"
    and "ownerGet c (lowercaseAndPluralise c (ref_kind r)) (obj_namespace object) (ref_name r) = Inl err"
    by (simp_all add: terminal_def)
  then show ?case
    by (subst getOriginControllerObject.simps) (simp add: terminal_def del: GetControllerOf.simps)
next
  case (Cons h hops)
  obtain r' owner where h: "h = (r', owner)"
    by (cases h)
  from Cons.prems h have ref: "GetControllerOf object = Some r'"
    and get: "ownerGet c (lowercaseAndPluralise c (ref_kind r')) (obj_namespace object) (ref_name r')
                = Inr (MetaObject owner)"
    and rest: "follows c owner hops"
    and last: "GetControllerOf (terminal owner hops) = Some r"
    and fail: "ownerGet c (lowercaseAndPluralise c (ref_kind r)) (obj_namespace (terminal owner hops))
                 (ref_name r) = Inl err"
    by (simp_all add: terminal_Cons)
  have "getOriginControllerObject c (MetaObject object) knd evs =
          getOriginControllerObject c (MetaObject owner) (ref_kind r')
            (evs @ [OwnerGet (lowercaseAndPluralise c (ref_kind r')) (obj_namespace object) (ref_name r')])"
    by (subst getOriginControllerObject.simps) (simp add: ref get del: GetControllerOf.simps)
  also note Cons.IH [OF rest last fail]
  finally show ?case
    by (simp add: h terminal_Cons)
qed

text \<open>
  C2. Along an owner chain of \<open>N\<close> hops whose last object has no controller reference,
  \<^verbatim>\<open>getOriginControllerObject\<close> returns, after the \<open>N\<close> reads of the chain and no other call,
  the name and the namespace of the last object with the kind under which it was reached.
\<close>

theorem getOriginControllerObject_terminal:
  assumes "follows c object hops"
    and "GetControllerOf (terminal object hops) = None"
  shows "getOriginControllerObject c (MetaObject object) knd evs =
           Some (Returned (Inr \<lparr>kind = terminalKind knd hops,
                                name = obj_name (terminal object hops),
                                namespace = obj_namespace (terminal object hops)\<rparr>),
                 evs @ requests c object hops) \<and>
         length (filter isOwnerGet (requests c object hops)) = length hops"
  using getOrigin_resolves [OF assms] length_requests by simp

theorem getOriginControllerObject_terminal_witness:
  "follows clusterA (podObject podA) chainA \<and>
   GetControllerOf (terminal (podObject podA) chainA) = None \<and>
   getOriginControllerObject clusterA (MetaObject (podObject podA)) (pod_kind podA) [] =
     Some (Returned (Inr \<lparr>kind = ''Deployment'', name = ''deploy-a'', namespace = ''ns''\<rparr>),
           [OwnerGet ''replicasets'' ''ns'' ''rs-a'', OwnerGet ''deployments'' ''ns'' ''deploy-a''])"
proof -
  have f: "follows clusterA (podObject podA) chainA"
    by (auto simp: chainA_def podObject_def podA_def clusterA_def controllerRef_def rsA_def
          deployA_def lowercaseAndPluralise_def plural_def)
  have t: "terminal (podObject podA) chainA = deployA"
    by (simp add: terminal_def chainA_def)
  have n: "GetControllerOf (terminal (podObject podA) chainA) = None"
    by (simp add: t deployA_def)
  have k: "terminalKind (pod_kind podA) chainA = ''Deployment''"
    by (simp add: terminalKind_def chainA_def controllerRef_def)
  have r: "requests clusterA (podObject podA) chainA =
             [OwnerGet ''replicasets'' ''ns'' ''rs-a'', OwnerGet ''deployments'' ''ns'' ''deploy-a'']"
    by (simp add: chainA_def podObject_def podA_def clusterA_def controllerRef_def rsA_def
          lowercaseAndPluralise_def plural_def)
  from getOriginControllerObject_terminal [OF f n, of "pod_kind podA" "[]"] f n
  show ?thesis
    by (simp add: t k r) (simp add: deployA_def)
qed

section \<open>The reconciler\<close>

lemma reSchedulePod_found:
  "SplitMetaNamespaceKey key = Inr (ns, nm) \<Longrightarrow> podGet c ns nm = Inr p \<Longrightarrow>
     reSchedulePod c key =
       (case getOriginControllerObject c (MetaObject (podObject p)) (pod_kind p) [PodLookup ns nm] of
          None \<Rightarrow> None
        | Some (Panicked, evs) \<Rightarrow> Some (Panicked, evs)
        | Some (Returned (Inl err), evs) \<Rightarrow> Some (Returned (Some err), evs)
        | Some (Returned (Inr cobj), evs) \<Rightarrow>
            (case nodeGet c (nodeName p) of
               Inl err \<Rightarrow> Some (Returned (Some err), evs @ [NodeGet (nodeName p)])
             | Inr n \<Rightarrow>
                 (case doPatch c (namespace cobj) (lowercaseAndPluralise c (kind cobj)) (name cobj)
                         (Sprintf patchJSON (archLabel n)) of
                    Some err \<Rightarrow>
                      Some (Returned (Some err),
                            evs @ [NodeGet (nodeName p),
                                   Patch (namespace cobj) (lowercaseAndPluralise c (kind cobj))
                                     (name cobj) (Sprintf patchJSON (archLabel n))])
                  | None \<Rightarrow>
                      Some (Returned None,
                            evs @ [NodeGet (nodeName p),
                                   Patch (namespace cobj) (lowercaseAndPluralise c (kind cobj))
                                     (name cobj) (Sprintf patchJSON (archLabel n))]))))"
  by (simp add: reSchedulePod_def patchToControllerObject_def Let_def
        split: option.splits prod.splits outcome.splits sum.splits)

lemma processEnqueuedItem_requeue:
  "reSchedulePod c key = Some (Returned (Some err), evs) \<Longrightarrow>
     processEnqueuedItem c (StringItem key, False) =
       Some (Returned True,
             evs @ [QueueAddRateLimited key, QueueDone (StringItem key),
                    HandleError (FailedToPatch key err)])"
  by (simp add: processEnqueuedItem_def)

lemma processEnqueuedItem_forget:
  "reSchedulePod c key = Some (Returned None, evs) \<Longrightarrow>
     processEnqueuedItem c (StringItem key, False) =
       Some (Returned True,
             evs @ [QueueForget (StringItem key), Klog (SuccessfullyPatched key),
                    QueueDone (StringItem key)])"
  by (simp add: processEnqueuedItem_def)

lemma runLoop_continues:
  "processEnqueuedItem c got = Some (Returned True, evs) \<Longrightarrow>
     runLoop c (got # gots) = andThen evs (runLoop c gots)"
  by (simp add: andThen_def)

text \<open>
  C7. When the read of an owner fails after some hops of the chain,
  \<^verbatim>\<open>getOriginControllerObject\<close> returns that error and no controller object, right after the
  failing read. \<^verbatim>\<open>reSchedulePod\<close> returns the error without reading the node or sending a
  patch, and the key goes back to the queue through \<^verbatim>\<open>AddRateLimited\<close>.
\<close>

theorem owner_fetch_failure_aborts:
  assumes "SplitMetaNamespaceKey key = Inr (ns, nm)"
    and "podGet c ns nm = Inr p"
    and "follows c (podObject p) hops"
    and "GetControllerOf (terminal (podObject p) hops) = Some r"
    and "ownerGet c (lowercaseAndPluralise c (ref_kind r))
           (obj_namespace (terminal (podObject p) hops)) (ref_name r) = Inl err"
  shows "getOriginControllerObject c (MetaObject (podObject p)) (pod_kind p) evs =
           Some (Returned (Inl err),
                 evs @ requests c (podObject p) hops
                   @ [OwnerGet (lowercaseAndPluralise c (ref_kind r))
                        (obj_namespace (terminal (podObject p) hops)) (ref_name r)]) \<and>
         reSchedulePod c key =
           Some (Returned (Some err),
                 PodLookup ns nm # requests c (podObject p) hops
                   @ [OwnerGet (lowercaseAndPluralise c (ref_kind r))
                        (obj_namespace (terminal (podObject p) hops)) (ref_name r)]) \<and>
         processEnqueuedItem c (StringItem key, False) =
           Some (Returned True,
                 PodLookup ns nm # requests c (podObject p) hops
                   @ [OwnerGet (lowercaseAndPluralise c (ref_kind r))
                        (obj_namespace (terminal (podObject p) hops)) (ref_name r),
                      QueueAddRateLimited key, QueueDone (StringItem key),
                      HandleError (FailedToPatch key err)])"
proof -
  note fails = getOrigin_fails [OF assms(3-5)]
  have r: "reSchedulePod c key =
           Some (Returned (Some err),
                 PodLookup ns nm # requests c (podObject p) hops
                   @ [OwnerGet (lowercaseAndPluralise c (ref_kind r))
                        (obj_namespace (terminal (podObject p) hops)) (ref_name r)])"
    by (simp only: reSchedulePod_found [OF assms(1,2)] fails) simp
  show ?thesis
    using fails [of "pod_kind p" evs] r processEnqueuedItem_requeue [OF r] by simp
qed

theorem owner_fetch_failure_aborts_witness:
  "processEnqueuedItem clusterD (StringItem ''ns/pod-a'', False) =
     Some (Returned True,
           [PodLookup ''ns'' ''pod-a'', OwnerGet ''replicasets'' ''ns'' ''rs-a'',
            OwnerGet ''deployments'' ''ns'' ''deploy-a'',
            QueueAddRateLimited ''ns/pod-a'', QueueDone (StringItem ''ns/pod-a''),
            HandleError (FailedToPatch ''ns/pod-a'' (ApiError ''timeout''))])"
proof -
  have s: "SplitMetaNamespaceKey ''ns/pod-a'' = Inr (''ns'', ''pod-a'')"
    by (simp add: SplitMetaNamespaceKey_def)
  have g: "podGet clusterD ''ns'' ''pod-a'' = Inr podA"
    by (simp add: clusterD_def clusterA_def)
  have f: "follows clusterD (podObject podA) [(controllerRef ''ReplicaSet'' ''rs-a'', rsA)]"
    by (auto simp: podObject_def podA_def clusterD_def clusterA_def controllerRef_def
          lowercaseAndPluralise_def plural_def)
  have t: "terminal (podObject podA) [(controllerRef ''ReplicaSet'' ''rs-a'', rsA)] = rsA"
    by (simp add: terminal_def)
  have o: "GetControllerOf (terminal (podObject podA) [(controllerRef ''ReplicaSet'' ''rs-a'', rsA)])
             = Some (controllerRef ''Deployment'' ''deploy-a'')"
    unfolding t by (auto simp: rsA_def controllerRef_def)
  have e: "ownerGet clusterD (lowercaseAndPluralise clusterD (ref_kind (controllerRef ''Deployment'' ''deploy-a'')))
             (obj_namespace (terminal (podObject podA) [(controllerRef ''ReplicaSet'' ''rs-a'', rsA)]))
             (ref_name (controllerRef ''Deployment'' ''deploy-a'')) = Inl (ApiError ''timeout'')"
    unfolding t
    by (simp add: clusterD_def clusterA_def controllerRef_def lowercaseAndPluralise_def
          plural_def rsA_def)
  have q: "requests clusterD (podObject podA) [(controllerRef ''ReplicaSet'' ''rs-a'', rsA)] =
             [OwnerGet ''replicasets'' ''ns'' ''rs-a'']"
    by (simp add: podObject_def podA_def clusterD_def clusterA_def controllerRef_def
          lowercaseAndPluralise_def plural_def)
  have l: "lowercaseAndPluralise clusterD (ref_kind (controllerRef ''Deployment'' ''deploy-a'')) = ''deployments''"
    "ref_name (controllerRef ''Deployment'' ''deploy-a'') = ''deploy-a''"
    "obj_namespace rsA = ''ns''"
    by (simp_all add: clusterD_def clusterA_def controllerRef_def lowercaseAndPluralise_def
          plural_def rsA_def)
  from owner_fetch_failure_aborts [OF s g f o e, of "[]"]
  show ?thesis
    unfolding q t l by simp
qed

text \<open>
  C4. For a key whose pod is in the cache: when the owner chain resolution returns an
  error, when the node lookup fails, or when the patch is refused, the key is re-added
  with \<^verbatim>\<open>AddRateLimited\<close> and never forgotten; when all three succeed the item is forgotten
  and not re-added. In each case \<^verbatim>\<open>processEnqueuedItem\<close> returns true, and the loop of \<^verbatim>\<open>Run\<close>
  goes on with the next item.
\<close>

theorem processEnqueuedItem_requeues_or_forgets:
  assumes "SplitMetaNamespaceKey key = Inr (ns, nm)"
    and "podGet c ns nm = Inr p"
  shows
    "(getOriginControllerObject c (MetaObject (podObject p)) (pod_kind p) [PodLookup ns nm]
        = Some (Returned (Inl err), evs) \<longrightarrow>
      processEnqueuedItem c (StringItem key, False) =
        Some (Returned True,
              evs @ [QueueAddRateLimited key, QueueDone (StringItem key),
                     HandleError (FailedToPatch key err)]) \<and>
      runLoop c ((StringItem key, False) # gots) =
        andThen (evs @ [QueueAddRateLimited key, QueueDone (StringItem key),
                        HandleError (FailedToPatch key err)]) (runLoop c gots)) \<and>
     (getOriginControllerObject c (MetaObject (podObject p)) (pod_kind p) [PodLookup ns nm]
        = Some (Returned (Inr cobj), evs) \<and>
      nodeGet c (nodeName p) = Inl err \<longrightarrow>
      processEnqueuedItem c (StringItem key, False) =
        Some (Returned True,
              evs @ [NodeGet (nodeName p),
                     QueueAddRateLimited key, QueueDone (StringItem key),
                     HandleError (FailedToPatch key err)]) \<and>
      runLoop c ((StringItem key, False) # gots) =
        andThen (evs @ [NodeGet (nodeName p),
                        QueueAddRateLimited key, QueueDone (StringItem key),
                        HandleError (FailedToPatch key err)]) (runLoop c gots)) \<and>
     (getOriginControllerObject c (MetaObject (podObject p)) (pod_kind p) [PodLookup ns nm]
        = Some (Returned (Inr cobj), evs) \<and>
      nodeGet c (nodeName p) = Inr n \<and>
      doPatch c (namespace cobj) (lowercaseAndPluralise c (kind cobj)) (name cobj)
        (Sprintf patchJSON (archLabel n)) = Some err \<longrightarrow>
      processEnqueuedItem c (StringItem key, False) =
        Some (Returned True,
              evs @ [NodeGet (nodeName p),
                     Patch (namespace cobj) (lowercaseAndPluralise c (kind cobj)) (name cobj)
                       (Sprintf patchJSON (archLabel n)),
                     QueueAddRateLimited key, QueueDone (StringItem key),
                     HandleError (FailedToPatch key err)]) \<and>
      runLoop c ((StringItem key, False) # gots) =
        andThen (evs @ [NodeGet (nodeName p),
                        Patch (namespace cobj) (lowercaseAndPluralise c (kind cobj)) (name cobj)
                          (Sprintf patchJSON (archLabel n)),
                        QueueAddRateLimited key, QueueDone (StringItem key),
                        HandleError (FailedToPatch key err)]) (runLoop c gots)) \<and>
     (getOriginControllerObject c (MetaObject (podObject p)) (pod_kind p) [PodLookup ns nm]
        = Some (Returned (Inr cobj), evs) \<and>
      nodeGet c (nodeName p) = Inr n \<and>
      doPatch c (namespace cobj) (lowercaseAndPluralise c (kind cobj)) (name cobj)
        (Sprintf patchJSON (archLabel n)) = None \<longrightarrow>
      processEnqueuedItem c (StringItem key, False) =
        Some (Returned True,
              evs @ [NodeGet (nodeName p),
                     Patch (namespace cobj) (lowercaseAndPluralise c (kind cobj)) (name cobj)
                       (Sprintf patchJSON (archLabel n)),
                     QueueForget (StringItem key), Klog (SuccessfullyPatched key),
                     QueueDone (StringItem key)]) \<and>
      runLoop c ((StringItem key, False) # gots) =
        andThen (evs @ [NodeGet (nodeName p),
                        Patch (namespace cobj) (lowercaseAndPluralise c (kind cobj)) (name cobj)
                          (Sprintf patchJSON (archLabel n)),
                        QueueForget (StringItem key), Klog (SuccessfullyPatched key),
                        QueueDone (StringItem key)]) (runLoop c gots))"
proof (intro conjI impI; (elim conjE)?)
  note found = reSchedulePod_found [OF assms]
  {
    assume "getOriginControllerObject c (MetaObject (podObject p)) (pod_kind p) [PodLookup ns nm]
              = Some (Returned (Inl err), evs)"
    then have r: "reSchedulePod c key = Some (Returned (Some err), evs)"
      by (simp add: found)
    note p = processEnqueuedItem_requeue [OF r]
    show "processEnqueuedItem c (StringItem key, False) =
        Some (Returned True,
              evs @ [QueueAddRateLimited key, QueueDone (StringItem key),
                     HandleError (FailedToPatch key err)])"
      by (rule p)
    show "runLoop c ((StringItem key, False) # gots) =
        andThen (evs @ [QueueAddRateLimited key, QueueDone (StringItem key),
                        HandleError (FailedToPatch key err)]) (runLoop c gots)"
      by (rule runLoop_continues [OF p])
  }
  {
    assume "getOriginControllerObject c (MetaObject (podObject p)) (pod_kind p) [PodLookup ns nm]
              = Some (Returned (Inr cobj), evs)"
      and "nodeGet c (nodeName p) = Inl err"
    then have r: "reSchedulePod c key = Some (Returned (Some err), evs @ [NodeGet (nodeName p)])"
      by (simp add: found)
    note p = processEnqueuedItem_requeue [OF r]
    show "processEnqueuedItem c (StringItem key, False) =
        Some (Returned True,
              evs @ [NodeGet (nodeName p),
                     QueueAddRateLimited key, QueueDone (StringItem key),
                     HandleError (FailedToPatch key err)])"
      using p by simp
    show "runLoop c ((StringItem key, False) # gots) =
        andThen (evs @ [NodeGet (nodeName p),
                        QueueAddRateLimited key, QueueDone (StringItem key),
                        HandleError (FailedToPatch key err)]) (runLoop c gots)"
      using runLoop_continues [OF p, of gots] by simp
  }
  {
    assume "getOriginControllerObject c (MetaObject (podObject p)) (pod_kind p) [PodLookup ns nm]
              = Some (Returned (Inr cobj), evs)"
      and "nodeGet c (nodeName p) = Inr n"
      and "doPatch c (namespace cobj) (lowercaseAndPluralise c (kind cobj)) (name cobj)
             (Sprintf patchJSON (archLabel n)) = Some err"
    then have r: "reSchedulePod c key =
        Some (Returned (Some err),
              evs @ [NodeGet (nodeName p),
                     Patch (namespace cobj) (lowercaseAndPluralise c (kind cobj)) (name cobj)
                       (Sprintf patchJSON (archLabel n))])"
      by (simp add: found)
    note p = processEnqueuedItem_requeue [OF r]
    show "processEnqueuedItem c (StringItem key, False) =
        Some (Returned True,
              evs @ [NodeGet (nodeName p),
                     Patch (namespace cobj) (lowercaseAndPluralise c (kind cobj)) (name cobj)
                       (Sprintf patchJSON (archLabel n)),
                     QueueAddRateLimited key, QueueDone (StringItem key),
                     HandleError (FailedToPatch key err)])"
      using p by simp
    show "runLoop c ((StringItem key, False) # gots) =
        andThen (evs @ [NodeGet (nodeName p),
                        Patch (namespace cobj) (lowercaseAndPluralise c (kind cobj)) (name cobj)
                          (Sprintf patchJSON (archLabel n)),
                        QueueAddRateLimited key, QueueDone (StringItem key),
                        HandleError (FailedToPatch key err)]) (runLoop c gots)"
      using runLoop_continues [OF p, of gots] by simp
  }
  {
    assume "getOriginControllerObject c (MetaObject (podObject p)) (pod_kind p) [PodLookup ns nm]
              = Some (Returned (Inr cobj), evs)"
      and "nodeGet c (nodeName p) = Inr n"
      and "doPatch c (namespace cobj) (lowercaseAndPluralise c (kind cobj)) (name cobj)
             (Sprintf patchJSON (archLabel n)) = None"
    then have r: "reSchedulePod c key =
        Some (Returned None,
              evs @ [NodeGet (nodeName p),
                     Patch (namespace cobj) (lowercaseAndPluralise c (kind cobj)) (name cobj)
                       (Sprintf patchJSON (archLabel n))])"
      by (simp add: found)
    note p = processEnqueuedItem_forget [OF r]
    show "processEnqueuedItem c (StringItem key, False) =
        Some (Returned True,
              evs @ [NodeGet (nodeName p),
                     Patch (namespace cobj) (lowercaseAndPluralise c (kind cobj)) (name cobj)
                       (Sprintf patchJSON (archLabel n)),
                     QueueForget (StringItem key), Klog (SuccessfullyPatched key),
                     QueueDone (StringItem key)])"
      using p by simp
    show "runLoop c ((StringItem key, False) # gots) =
        andThen (evs @ [NodeGet (nodeName p),
                        Patch (namespace cobj) (lowercaseAndPluralise c (kind cobj)) (name cobj)
                          (Sprintf patchJSON (archLabel n)),
                        QueueForget (StringItem key), Klog (SuccessfullyPatched key),
                        QueueDone (StringItem key)]) (runLoop c gots)"
      using runLoop_continues [OF p, of gots] by simp
  }
qed

lemma resolve_podA:
  assumes "ownerGet c = ownerGet clusterA" and "pluralNamer c = plural"
  shows "getOriginControllerObject c (MetaObject (podObject podA)) (pod_kind podA) evs =
           Some (Returned (Inr \<lparr>kind = ''Deployment'', name = ''deploy-a'', namespace = ''ns''\<rparr>),
                 evs @ [OwnerGet ''replicasets'' ''ns'' ''rs-a'',
                        OwnerGet ''deployments'' ''ns'' ''deploy-a''])"
proof -
  have f: "follows c (podObject podA) chainA"
    by (auto simp: assms chainA_def podObject_def podA_def clusterA_def controllerRef_def
          rsA_def deployA_def lowercaseAndPluralise_def plural_def)
  have t: "terminal (podObject podA) chainA = deployA"
    by (simp add: terminal_def chainA_def)
  have n: "GetControllerOf (terminal (podObject podA) chainA) = None"
    unfolding t by (simp add: deployA_def)
  have k: "terminalKind (pod_kind podA) chainA = ''Deployment''"
    by (simp add: terminalKind_def chainA_def controllerRef_def)
  have r: "requests c (podObject podA) chainA =
             [OwnerGet ''replicasets'' ''ns'' ''rs-a'', OwnerGet ''deployments'' ''ns'' ''deploy-a'']"
    by (simp add: assms chainA_def podObject_def podA_def controllerRef_def rsA_def
          lowercaseAndPluralise_def plural_def)
  show ?thesis
    unfolding getOrigin_resolves [OF f n] t k r by (simp add: deployA_def)
qed

lemma split_podA: "SplitMetaNamespaceKey ''ns/pod-a'' = Inr (''ns'', ''pod-a'')"
  by (simp add: SplitMetaNamespaceKey_def)

theorem processEnqueuedItem_requeues_or_forgets_witness:
  "processEnqueuedItem clusterA (StringItem ''ns/pod-a'', False) =
     Some (Returned True,
           [PodLookup ''ns'' ''pod-a'', OwnerGet ''replicasets'' ''ns'' ''rs-a'',
            OwnerGet ''deployments'' ''ns'' ''deploy-a'', NodeGet ''node-1'',
            Patch ''ns'' ''deployments'' ''deploy-a'' (Sprintf patchJSON ''arm64''),
            QueueForget (StringItem ''ns/pod-a''), Klog (SuccessfullyPatched ''ns/pod-a''),
            QueueDone (StringItem ''ns/pod-a'')]) \<and>
   processEnqueuedItem clusterN (StringItem ''ns/pod-a'', False) =
     Some (Returned True,
           [PodLookup ''ns'' ''pod-a'', OwnerGet ''replicasets'' ''ns'' ''rs-a'',
            OwnerGet ''deployments'' ''ns'' ''deploy-a'', NodeGet ''node-1'',
            QueueAddRateLimited ''ns/pod-a'', QueueDone (StringItem ''ns/pod-a''),
            HandleError (FailedToPatch ''ns/pod-a'' (ApiError ''node unreachable''))]) \<and>
   processEnqueuedItem clusterF (StringItem ''ns/pod-a'', False) =
     Some (Returned True,
           [PodLookup ''ns'' ''pod-a'', OwnerGet ''replicasets'' ''ns'' ''rs-a'',
            OwnerGet ''deployments'' ''ns'' ''deploy-a'', NodeGet ''node-1'',
            Patch ''ns'' ''deployments'' ''deploy-a'' (Sprintf patchJSON ''arm64''),
            QueueAddRateLimited ''ns/pod-a'', QueueDone (StringItem ''ns/pod-a''),
            HandleError (FailedToPatch ''ns/pod-a'' (ApiError ''forbidden''))]) \<and>
   processEnqueuedItem clusterD (StringItem ''ns/pod-a'', False) =
     Some (Returned True,
           [PodLookup ''ns'' ''pod-a'', OwnerGet ''replicasets'' ''ns'' ''rs-a'',
            OwnerGet ''deployments'' ''ns'' ''deploy-a'',
            QueueAddRateLimited ''ns/pod-a'', QueueDone (StringItem ''ns/pod-a''),
            HandleError (FailedToPatch ''ns/pod-a'' (ApiError ''timeout''))])"
proof (intro conjI)
  let ?cobj = "\<lparr>kind = ''Deployment'', name = ''deploy-a'', namespace = ''ns''\<rparr>"
  let ?evs = "[PodLookup ''ns'' ''pod-a'', OwnerGet ''replicasets'' ''ns'' ''rs-a'',
               OwnerGet ''deployments'' ''ns'' ''deploy-a'']"
  let ?n = "\<lparr>node_name = ''node-1'', labels = [''beta.kubernetes.io/arch'' \<mapsto> ''arm64'']\<rparr>"
  have a: "archLabel ?n = ''arm64''"
    by (simp add: archLabel_def)
  have nn: "nodeName podA = ''node-1''"
    by (simp add: podA_def)
  {
    have g: "podGet clusterA ''ns'' ''pod-a'' = Inr podA"
      by (simp add: clusterA_def)
    have o: "getOriginControllerObject clusterA (MetaObject (podObject podA)) (pod_kind podA)
               [PodLookup ''ns'' ''pod-a''] = Some (Returned (Inr ?cobj), ?evs)"
      by (rule resolve_podA [of clusterA "[PodLookup ''ns'' ''pod-a'']", simplified])
         (simp_all add: clusterA_def)
    have n: "nodeGet clusterA (nodeName podA) = Inr ?n"
      by (simp add: clusterA_def podA_def)
    have d: "doPatch clusterA (namespace ?cobj) (lowercaseAndPluralise clusterA (kind ?cobj))
               (name ?cobj) (Sprintf patchJSON (archLabel ?n)) = None"
      by (simp add: clusterA_def)
    have l: "lowercaseAndPluralise clusterA ''Deployment'' = ''deployments''"
      by (simp add: clusterA_def lowercaseAndPluralise_def plural_def)
    from processEnqueuedItem_requeues_or_forgets [OF split_podA g,
        where evs = "?evs" and cobj = "?cobj" and n = "?n" and gots = "[]"
          and err = "ApiError []"] o n d
    show "processEnqueuedItem clusterA (StringItem ''ns/pod-a'', False) =
     Some (Returned True,
           [PodLookup ''ns'' ''pod-a'', OwnerGet ''replicasets'' ''ns'' ''rs-a'',
            OwnerGet ''deployments'' ''ns'' ''deploy-a'', NodeGet ''node-1'',
            Patch ''ns'' ''deployments'' ''deploy-a'' (Sprintf patchJSON ''arm64''),
            QueueForget (StringItem ''ns/pod-a''), Klog (SuccessfullyPatched ''ns/pod-a''),
            QueueDone (StringItem ''ns/pod-a'')])"
      by (simp add: a nn l)
  }
  {
    have g: "podGet clusterN ''ns'' ''pod-a'' = Inr podA"
      by (simp add: clusterN_def clusterA_def)
    have o: "getOriginControllerObject clusterN (MetaObject (podObject podA)) (pod_kind podA)
               [PodLookup ''ns'' ''pod-a''] = Some (Returned (Inr ?cobj), ?evs)"
      by (rule resolve_podA [of clusterN "[PodLookup ''ns'' ''pod-a'']", simplified])
         (simp_all add: clusterN_def clusterA_def)
    have n: "nodeGet clusterN (nodeName podA) = Inl (ApiError ''node unreachable'')"
      by (simp add: clusterN_def)
    from processEnqueuedItem_requeues_or_forgets [OF split_podA g,
        where evs = "?evs" and cobj = "?cobj" and n = "?n" and gots = "[]"
          and err = "ApiError ''node unreachable''"] o n
    show "processEnqueuedItem clusterN (StringItem ''ns/pod-a'', False) =
     Some (Returned True,
           [PodLookup ''ns'' ''pod-a'', OwnerGet ''replicasets'' ''ns'' ''rs-a'',
            OwnerGet ''deployments'' ''ns'' ''deploy-a'', NodeGet ''node-1'',
            QueueAddRateLimited ''ns/pod-a'', QueueDone (StringItem ''ns/pod-a''),
            HandleError (FailedToPatch ''ns/pod-a'' (ApiError ''node unreachable''))])"
      by (simp add: nn)
  }
  {
    have g: "podGet clusterF ''ns'' ''pod-a'' = Inr podA"
      by (simp add: clusterF_def clusterA_def)
    have o: "getOriginControllerObject clusterF (MetaObject (podObject podA)) (pod_kind podA)
               [PodLookup ''ns'' ''pod-a''] = Some (Returned (Inr ?cobj), ?evs)"
      by (rule resolve_podA [of clusterF "[PodLookup ''ns'' ''pod-a'']", simplified])
         (simp_all add: clusterF_def clusterA_def)
    have n: "nodeGet clusterF (nodeName podA) = Inr ?n"
      by (simp add: clusterF_def clusterA_def podA_def)
    have d: "doPatch clusterF (namespace ?cobj) (lowercaseAndPluralise clusterF (kind ?cobj))
               (name ?cobj) (Sprintf patchJSON (archLabel ?n)) = Some (ApiError ''forbidden'')"
      by (simp add: clusterF_def)
    have l: "lowercaseAndPluralise clusterF ''Deployment'' = ''deployments''"
      by (simp add: clusterF_def clusterA_def lowercaseAndPluralise_def plural_def)
    from processEnqueuedItem_requeues_or_forgets [OF split_podA g,
        where evs = "?evs" and cobj = "?cobj" and n = "?n" and gots = "[]"
          and err = "ApiError ''forbidden''"] o n d
    show "processEnqueuedItem clusterF (StringItem ''ns/pod-a'', False) =
     Some (Returned True,
           [PodLookup ''ns'' ''pod-a'', OwnerGet ''replicasets'' ''ns'' ''rs-a'',
            OwnerGet ''deployments'' ''ns'' ''deploy-a'', NodeGet ''node-1'',
            Patch ''ns'' ''deployments'' ''deploy-a'' (Sprintf patchJSON ''arm64''),
            QueueAddRateLimited ''ns/pod-a'', QueueDone (StringItem ''ns/pod-a''),
            HandleError (FailedToPatch ''ns/pod-a'' (ApiError ''forbidden''))])"
      by (simp add: a nn l)
  }
  {
    have g: "podGet clusterD ''ns'' ''pod-a'' = Inr podA"
      by (simp add: clusterD_def clusterA_def)
    have f: "follows clusterD (podObject podA) [(controllerRef ''ReplicaSet'' ''rs-a'', rsA)]"
      by (auto simp: podObject_def podA_def clusterD_def clusterA_def controllerRef_def
            lowercaseAndPluralise_def plural_def)
    have t: "terminal (podObject podA) [(controllerRef ''ReplicaSet'' ''rs-a'', rsA)] = rsA"
      by (simp add: terminal_def)
    have r: "GetControllerOf (terminal (podObject podA) [(controllerRef ''ReplicaSet'' ''rs-a'', rsA)])
               = Some (controllerRef ''Deployment'' ''deploy-a'')"
      unfolding t by (auto simp: rsA_def controllerRef_def)
    have e: "ownerGet clusterD
               (lowercaseAndPluralise clusterD (ref_kind (controllerRef ''Deployment'' ''deploy-a'')))
               (obj_namespace (terminal (podObject podA) [(controllerRef ''ReplicaSet'' ''rs-a'', rsA)]))
               (ref_name (controllerRef ''Deployment'' ''deploy-a'')) = Inl (ApiError ''timeout'')"
      unfolding t
      by (simp add: clusterD_def clusterA_def controllerRef_def lowercaseAndPluralise_def
            plural_def rsA_def)
    have o: "getOriginControllerObject clusterD (MetaObject (podObject podA)) (pod_kind podA)
               [PodLookup ''ns'' ''pod-a''] = Some (Returned (Inl (ApiError ''timeout'')), ?evs)"
      unfolding getOrigin_fails [OF f r e] t
      by (simp add: podObject_def podA_def clusterD_def clusterA_def controllerRef_def
            lowercaseAndPluralise_def plural_def rsA_def)
    from processEnqueuedItem_requeues_or_forgets [OF split_podA g,
        where evs = "?evs" and cobj = "?cobj" and n = "?n" and gots = "[]"
          and err = "ApiError ''timeout''"] o
    show "processEnqueuedItem clusterD (StringItem ''ns/pod-a'', False) =
     Some (Returned True,
           [PodLookup ''ns'' ''pod-a'', OwnerGet ''replicasets'' ''ns'' ''rs-a'',
            OwnerGet ''deployments'' ''ns'' ''deploy-a'',
            QueueAddRateLimited ''ns/pod-a'', QueueDone (StringItem ''ns/pod-a''),
            HandleError (FailedToPatch ''ns/pod-a'' (ApiError ''timeout''))])"
      by simp
  }
qed

text \<open>
  C5. A key that \<^verbatim>\<open>SplitMetaNamespaceKey\<close> rejects, and a key whose pod the lister reports as
  not found, are each reported through \<^verbatim>\<open>runtime.HandleError\<close>, forgotten and marked done;
  no call re-adds them to the queue.
\<close>

theorem processEnqueuedItem_drops_bad_or_stale_key:
  "(SplitMetaNamespaceKey key = Inl e \<longrightarrow>
      processEnqueuedItem c (StringItem key, False) =
        Some (Returned True,
              [HandleError (InvalidResourceKey key),
               QueueForget (StringItem key), Klog (SuccessfullyPatched key),
               QueueDone (StringItem key)])) \<and>
   (SplitMetaNamespaceKey key = Inr (ns, nm) \<and> podGet c ns nm = Inl err \<and> IsNotFound err \<longrightarrow>
      processEnqueuedItem c (StringItem key, False) =
        Some (Returned True,
              [PodLookup ns nm, HandleError (PodNoLongerExists key),
               QueueForget (StringItem key), Klog (SuccessfullyPatched key),
               QueueDone (StringItem key)]))"
  by (simp add: processEnqueuedItem_def reSchedulePod_def)

theorem processEnqueuedItem_drops_bad_or_stale_key_witness:
  "processEnqueuedItem clusterA (StringItem ''ns/pod/a'', False) =
     Some (Returned True,
           [HandleError (InvalidResourceKey ''ns/pod/a''),
            QueueForget (StringItem ''ns/pod/a''), Klog (SuccessfullyPatched ''ns/pod/a''),
            QueueDone (StringItem ''ns/pod/a'')]) \<and>
   processEnqueuedItem clusterA (StringItem ''ns/gone'', False) =
     Some (Returned True,
           [PodLookup ''ns'' ''gone'', HandleError (PodNoLongerExists ''ns/gone''),
            QueueForget (StringItem ''ns/gone''), Klog (SuccessfullyPatched ''ns/gone''),
            QueueDone (StringItem ''ns/gone'')])"
proof -
  have b: "SplitMetaNamespaceKey ''ns/pod/a'' = Inl (ApiError ''unexpected key format: ns/pod/a'')"
    by (simp add: SplitMetaNamespaceKey_def)
  have s: "SplitMetaNamespaceKey ''ns/gone'' = Inr (''ns'', ''gone'')"
    by (simp add: SplitMetaNamespaceKey_def)
  have g: "podGet clusterA ''ns'' ''gone'' = Inl (NotFound ''gone'')"
    by (simp add: clusterA_def)
  have n: "IsNotFound (NotFound ''gone'')"
    by simp
  from processEnqueuedItem_drops_bad_or_stale_key
         [where key = "''ns/pod/a''" and c = clusterA
            and e = "ApiError ''unexpected key format: ns/pod/a''"] b
    processEnqueuedItem_drops_bad_or_stale_key
         [where key = "''ns/gone''" and c = clusterA and ns = "''ns''" and nm = "''gone''"
            and err = "NotFound ''gone''"] s g n
  show ?thesis by simp
qed

lemma getOrigin_panics:
  "getOriginControllerObject c NotMetaObject knd evs = Some (Panicked, evs)"
  by (subst getOriginControllerObject.simps) simp

lemma getOrigin_hop:
  "GetControllerOf object = Some r \<Longrightarrow>
   ownerGet c (lowercaseAndPluralise c (ref_kind r)) (obj_namespace object) (ref_name r) = Inr res \<Longrightarrow>
     getOriginControllerObject c (MetaObject object) knd evs =
       getOriginControllerObject c res (ref_kind r)
         (evs @ [OwnerGet (lowercaseAndPluralise c (ref_kind r)) (obj_namespace object) (ref_name r)])"
  by (subst getOriginControllerObject.simps) (simp del: GetControllerOf.simps)

lemma getOrigin_returns:
  "walkReturns c n object \<Longrightarrow>
     \<exists>r evs'. getOriginControllerObject c (MetaObject object) knd evs = Some (Returned r, evs') \<and>
       filter isQueueDone evs' = filter isQueueDone evs \<and>
       filter isVerdict evs' = filter isVerdict evs"
proof (induction n arbitrary: object knd evs)
  case 0
  then show ?case
    by (subst getOriginControllerObject.simps)
       (auto simp del: GetControllerOf.simps split: option.splits sum.splits)
next
  case (Suc n)
  show ?case
  proof (cases "GetControllerOf object")
    case None
    then show ?thesis
      by (subst getOriginControllerObject.simps) simp
  next
    case (Some r)
    let ?req = "OwnerGet (lowercaseAndPluralise c (ref_kind r)) (obj_namespace object) (ref_name r)"
    show ?thesis
    proof (cases "ownerGet c (lowercaseAndPluralise c (ref_kind r)) (obj_namespace object) (ref_name r)")
      case (Inl err)
      with Some show ?thesis
        by (subst getOriginControllerObject.simps) (simp del: GetControllerOf.simps)
    next
      case (Inr res)
      show ?thesis
      proof (cases res)
        case NotMetaObject
        with Suc.prems Some Inr show ?thesis
          by (simp del: GetControllerOf.simps)
      next
        case (MetaObject owner)
        with Suc.prems Some Inr have "walkReturns c n owner"
          by (simp del: GetControllerOf.simps)
        from Suc.IH [OF this, of "ref_kind r" "evs @ [?req]"]
        obtain r' evs' where
          "getOriginControllerObject c (MetaObject owner) (ref_kind r) (evs @ [?req])
             = Some (Returned r', evs')"
          "filter isQueueDone evs' = filter isQueueDone evs"
          "filter isVerdict evs' = filter isVerdict evs"
          by auto
        then show ?thesis
          by (simp only: getOrigin_hop [OF Some Inr] MetaObject) blast
      qed
    qed
  qed
qed

lemma getOrigin_walk_panics:
  "walkPanics c n object \<Longrightarrow>
     \<exists>evs'. getOriginControllerObject c (MetaObject object) knd evs = Some (Panicked, evs') \<and>
       filter isQueueDone evs' = filter isQueueDone evs \<and>
       filter isVerdict evs' = filter isVerdict evs"
proof (induction n arbitrary: object knd evs)
  case 0
  then obtain r where r: "GetControllerOf object = Some r"
    and g: "ownerGet c (lowercaseAndPluralise c (ref_kind r)) (obj_namespace object) (ref_name r)
              = Inr NotMetaObject"
    by (auto simp del: GetControllerOf.simps split: option.splits sum.splits runtimeObject.splits)
  show ?case
    by (simp only: getOrigin_hop [OF r g] getOrigin_panics) simp
next
  case (Suc n)
  from Suc.prems obtain r res where r: "GetControllerOf object = Some r"
    and g: "ownerGet c (lowercaseAndPluralise c (ref_kind r)) (obj_namespace object) (ref_name r)
              = Inr res"
    and w: "res = NotMetaObject \<or> (\<exists>owner. res = MetaObject owner \<and> walkPanics c n owner)"
    by (auto simp del: GetControllerOf.simps split: option.splits sum.splits runtimeObject.splits)
  let ?req = "OwnerGet (lowercaseAndPluralise c (ref_kind r)) (obj_namespace object) (ref_name r)"
  from w show ?case
  proof
    assume "res = NotMetaObject"
    then show ?thesis
      by (simp only: getOrigin_hop [OF r g] getOrigin_panics) simp
  next
    assume "\<exists>owner. res = MetaObject owner \<and> walkPanics c n owner"
    then obtain owner where o: "res = MetaObject owner" and p: "walkPanics c n owner"
      by blast
    from Suc.IH [OF p, of "ref_kind r" "evs @ [?req]"]
    obtain evs' where
      "getOriginControllerObject c (MetaObject owner) (ref_kind r) (evs @ [?req]) = Some (Panicked, evs')"
      "filter isQueueDone evs' = filter isQueueDone evs"
      "filter isVerdict evs' = filter isVerdict evs"
      by auto
    then show ?thesis
      by (simp only: getOrigin_hop [OF r g] o) blast
  qed
qed

lemma reSchedulePod_returns:
  assumes "itemReturns c n (StringItem key)"
  shows "\<exists>r evs. reSchedulePod c key = Some (Returned r, evs) \<and>
           filter isQueueDone evs = [] \<and> filter isVerdict evs = []"
proof (cases "SplitMetaNamespaceKey key")
  case (Inl err)
  then show ?thesis by (simp add: reSchedulePod_def)
next
  case (Inr nsnm)
  obtain ns nm where nsnm: "nsnm = (ns, nm)"
    by (cases nsnm)
  show ?thesis
  proof (cases "podGet c ns nm")
    case (Inl err)
    with Inr nsnm show ?thesis by (simp add: reSchedulePod_def)
  next
    case p: (Inr p)
    with assms Inr nsnm have "walkReturns c n (podObject p)"
      by (simp add: itemReturns_def)
    from getOrigin_returns [OF this, of "pod_kind p" "[PodLookup ns nm]"]
    obtain r evs where o:
      "getOriginControllerObject c (MetaObject (podObject p)) (pod_kind p) [PodLookup ns nm]
         = Some (Returned r, evs)"
      "filter isQueueDone evs = []" "filter isVerdict evs = []"
      by auto
    show ?thesis
      unfolding reSchedulePod_found [OF Inr [unfolded nsnm] p]
      using o by (auto split: sum.splits option.splits)
  qed
qed

lemma reSchedulePod_panics:
  assumes "itemPanics c n (StringItem key)"
  shows "\<exists>evs. reSchedulePod c key = Some (Panicked, evs) \<and>
           filter isQueueDone evs = [] \<and> filter isVerdict evs = []"
proof -
  from assms obtain ns nm where s: "SplitMetaNamespaceKey key = Inr (ns, nm)"
    by (cases "SplitMetaNamespaceKey key") (auto simp: itemPanics_def)
  with assms obtain p where g: "podGet c ns nm = Inr p"
    by (cases "podGet c ns nm") (auto simp: itemPanics_def)
  with assms s have w: "walkPanics c n (podObject p)"
    by (simp add: itemPanics_def)
  from getOrigin_walk_panics [OF w, of "pod_kind p" "[PodLookup ns nm]"]
  obtain evs where
    "getOriginControllerObject c (MetaObject (podObject p)) (pod_kind p) [PodLookup ns nm]
       = Some (Panicked, evs)"
    "filter isQueueDone evs = []" "filter isVerdict evs = []"
    by auto
  then show ?thesis
    unfolding reSchedulePod_found [OF s g] by simp
qed

lemma processEnqueuedItem_returns:
  assumes "itemReturns c n obj"
  shows "\<exists>evs. processEnqueuedItem c (obj, False) = Some (Returned True, evs) \<and>
           filter isQueueDone evs = [QueueDone obj] \<and>
           (filter isVerdict evs = [QueueForget obj] \<or>
            (\<exists>key. obj = StringItem key \<and> filter isVerdict evs = [QueueAddRateLimited key]))"
proof (cases obj)
  case (OtherItem v)
  then show ?thesis by (simp add: processEnqueuedItem_def)
next
  case (StringItem key)
  from reSchedulePod_returns [OF assms [unfolded StringItem]]
  obtain r evs where "reSchedulePod c key = Some (Returned r, evs)"
    "filter isQueueDone evs = []" "filter isVerdict evs = []"
    by auto
  then show ?thesis
    by (cases r) (simp_all add: processEnqueuedItem_def StringItem)
qed

lemma processEnqueuedItem_panics:
  assumes "itemPanics c n obj"
  shows "\<exists>evs. processEnqueuedItem c (obj, False) = Some (Panicked, evs) \<and>
           filter isQueueDone evs = [QueueDone obj] \<and> filter isVerdict evs = []"
proof (cases obj)
  case (OtherItem v)
  with assms show ?thesis by (simp add: itemPanics_def)
next
  case (StringItem key)
  from reSchedulePod_panics [OF assms [unfolded StringItem]]
  obtain evs where "reSchedulePod c key = Some (Panicked, evs)"
    "filter isQueueDone evs = []" "filter isVerdict evs = []"
    by auto
  then show ?thesis
    by (simp add: processEnqueuedItem_def StringItem)
qed

text \<open>
  C10, as the code has it. Take an item dequeued while the queue is not shutting down.
  If the walk up the owners of its pod ends and no read of an owner returns an object
  that is no \<^verbatim>\<open>metav1.Object\<close>, then \<^verbatim>\<open>processEnqueuedItem\<close> calls \<^verbatim>\<open>Done\<close> on the item exactly
  once, calls exactly one of \<^verbatim>\<open>Forget\<close> and \<^verbatim>\<open>AddRateLimited\<close> for it, and returns true, so
  that the loop of \<^verbatim>\<open>Run\<close> goes on with the next item. If a read of an owner returns an
  object that is no \<^verbatim>\<open>metav1.Object\<close>, the processing panics: \<^verbatim>\<open>Done\<close> is still called
  exactly once, through the \<^verbatim>\<open>defer\<close>, neither \<^verbatim>\<open>Forget\<close> nor \<^verbatim>\<open>AddRateLimited\<close> is called, and
  nothing is returned.
\<close>

theorem processEnqueuedItem_done_once:
  "(itemReturns c n obj \<longrightarrow>
      (\<exists>evs. processEnqueuedItem c (obj, False) = Some (Returned True, evs) \<and>
         filter isQueueDone evs = [QueueDone obj] \<and>
         (filter isVerdict evs = [QueueForget obj] \<or>
          (\<exists>key. obj = StringItem key \<and> filter isVerdict evs = [QueueAddRateLimited key])) \<and>
         runLoop c ((obj, False) # gots) = andThen evs (runLoop c gots))) \<and>
   (itemPanics c n obj \<longrightarrow>
      (\<exists>evs. processEnqueuedItem c (obj, False) = Some (Panicked, evs) \<and>
         filter isQueueDone evs = [QueueDone obj] \<and>
         filter isVerdict evs = [] \<and>
         runLoop c ((obj, False) # gots) = Some (Crashed, evs)))"
proof (intro conjI impI)
  assume "itemReturns c n obj"
  from processEnqueuedItem_returns [OF this] obtain evs where
    p: "processEnqueuedItem c (obj, False) = Some (Returned True, evs)"
    and d: "filter isQueueDone evs = [QueueDone obj]"
    and v: "filter isVerdict evs = [QueueForget obj] \<or>
            (\<exists>key. obj = StringItem key \<and> filter isVerdict evs = [QueueAddRateLimited key])"
    by blast
  from p d v runLoop_continues [OF p, of gots]
  show "\<exists>evs. processEnqueuedItem c (obj, False) = Some (Returned True, evs) \<and>
         filter isQueueDone evs = [QueueDone obj] \<and>
         (filter isVerdict evs = [QueueForget obj] \<or>
          (\<exists>key. obj = StringItem key \<and> filter isVerdict evs = [QueueAddRateLimited key])) \<and>
         runLoop c ((obj, False) # gots) = andThen evs (runLoop c gots)"
    by blast
next
  assume "itemPanics c n obj"
  from processEnqueuedItem_panics [OF this] obtain evs where
    p: "processEnqueuedItem c (obj, False) = Some (Panicked, evs)"
    and d: "filter isQueueDone evs = [QueueDone obj]"
    and v: "filter isVerdict evs = []"
    by blast
  from p have "runLoop c ((obj, False) # gots) = Some (Crashed, evs)"
    by simp
  with p d v
  show "\<exists>evs. processEnqueuedItem c (obj, False) = Some (Panicked, evs) \<and>
         filter isQueueDone evs = [QueueDone obj] \<and>
         filter isVerdict evs = [] \<and>
         runLoop c ((obj, False) # gots) = Some (Crashed, evs)"
    by blast
qed

lemma process_podA_forgotten:
  "processEnqueuedItem clusterA (StringItem ''ns/pod-a'', False) =
     Some (Returned True,
           [PodLookup ''ns'' ''pod-a'', OwnerGet ''replicasets'' ''ns'' ''rs-a'',
            OwnerGet ''deployments'' ''ns'' ''deploy-a'', NodeGet ''node-1'',
            Patch ''ns'' ''deployments'' ''deploy-a'' (Sprintf patchJSON ''arm64''),
            QueueForget (StringItem ''ns/pod-a''), Klog (SuccessfullyPatched ''ns/pod-a''),
            QueueDone (StringItem ''ns/pod-a'')])"
proof -
  have g: "podGet clusterA ''ns'' ''pod-a'' = Inr podA"
    by (simp add: clusterA_def)
  have o: "getOriginControllerObject clusterA (MetaObject (podObject podA)) (pod_kind podA)
             [PodLookup ''ns'' ''pod-a''] =
           Some (Returned (Inr \<lparr>kind = ''Deployment'', name = ''deploy-a'', namespace = ''ns''\<rparr>),
                 [PodLookup ''ns'' ''pod-a''] @ [OwnerGet ''replicasets'' ''ns'' ''rs-a'',
                                                 OwnerGet ''deployments'' ''ns'' ''deploy-a''])"
    by (rule resolve_podA) (simp_all add: clusterA_def)
  have "reSchedulePod clusterA ''ns/pod-a'' =
          Some (Returned None,
                [PodLookup ''ns'' ''pod-a'', OwnerGet ''replicasets'' ''ns'' ''rs-a'',
                 OwnerGet ''deployments'' ''ns'' ''deploy-a'', NodeGet ''node-1'',
                 Patch ''ns'' ''deployments'' ''deploy-a'' (Sprintf patchJSON ''arm64'')])"
    unfolding reSchedulePod_found [OF split_podA g] o
    by (simp add: clusterA_def podA_def archLabel_def lowercaseAndPluralise_def plural_def)
  from processEnqueuedItem_forget [OF this] show ?thesis by simp
qed

lemma process_podA_requeued:
  "processEnqueuedItem clusterD (StringItem ''ns/pod-a'', False) =
     Some (Returned True,
           [PodLookup ''ns'' ''pod-a'', OwnerGet ''replicasets'' ''ns'' ''rs-a'',
            OwnerGet ''deployments'' ''ns'' ''deploy-a'',
            QueueAddRateLimited ''ns/pod-a'', QueueDone (StringItem ''ns/pod-a''),
            HandleError (FailedToPatch ''ns/pod-a'' (ApiError ''timeout''))])"
proof -
  have g: "podGet clusterD ''ns'' ''pod-a'' = Inr podA"
    by (simp add: clusterD_def clusterA_def)
  have f: "follows clusterD (podObject podA) [(controllerRef ''ReplicaSet'' ''rs-a'', rsA)]"
    by (auto simp: podObject_def podA_def clusterD_def clusterA_def controllerRef_def
          lowercaseAndPluralise_def plural_def)
  have t: "terminal (podObject podA) [(controllerRef ''ReplicaSet'' ''rs-a'', rsA)] = rsA"
    by (simp add: terminal_def)
  have r: "GetControllerOf (terminal (podObject podA) [(controllerRef ''ReplicaSet'' ''rs-a'', rsA)])
             = Some (controllerRef ''Deployment'' ''deploy-a'')"
    unfolding t by (auto simp: rsA_def controllerRef_def)
  have e: "ownerGet clusterD
             (lowercaseAndPluralise clusterD (ref_kind (controllerRef ''Deployment'' ''deploy-a'')))
             (obj_namespace (terminal (podObject podA) [(controllerRef ''ReplicaSet'' ''rs-a'', rsA)]))
             (ref_name (controllerRef ''Deployment'' ''deploy-a'')) = Inl (ApiError ''timeout'')"
    unfolding t
    by (simp add: clusterD_def clusterA_def controllerRef_def lowercaseAndPluralise_def
          plural_def rsA_def)
  have o: "getOriginControllerObject clusterD (MetaObject (podObject podA)) (pod_kind podA)
             [PodLookup ''ns'' ''pod-a''] =
           Some (Returned (Inl (ApiError ''timeout'')),
                 [PodLookup ''ns'' ''pod-a'', OwnerGet ''replicasets'' ''ns'' ''rs-a'',
                  OwnerGet ''deployments'' ''ns'' ''deploy-a''])"
    unfolding getOrigin_fails [OF f r e] t
    by (simp add: podObject_def podA_def clusterD_def clusterA_def controllerRef_def
          lowercaseAndPluralise_def plural_def rsA_def)
  have "reSchedulePod clusterD ''ns/pod-a'' =
          Some (Returned (Some (ApiError ''timeout'')),
                [PodLookup ''ns'' ''pod-a'', OwnerGet ''replicasets'' ''ns'' ''rs-a'',
                 OwnerGet ''deployments'' ''ns'' ''deploy-a''])"
    unfolding reSchedulePod_found [OF split_podA g] o by simp
  from processEnqueuedItem_requeue [OF this] show ?thesis by simp
qed

lemma process_podA_panicked:
  "processEnqueuedItem clusterP (StringItem ''ns/pod-a'', False) =
     Some (Panicked,
           [PodLookup ''ns'' ''pod-a'', OwnerGet ''replicasets'' ''ns'' ''rs-a'',
            QueueDone (StringItem ''ns/pod-a'')])"
proof -
  have g: "podGet clusterP ''ns'' ''pod-a'' = Inr podA"
    by (simp add: clusterP_def clusterA_def)
  let ?req = "OwnerGet ''replicasets'' ''ns'' ''rs-a''"
  have "getOriginControllerObject clusterP (MetaObject (podObject podA)) (pod_kind podA)
          [PodLookup ''ns'' ''pod-a''] =
        getOriginControllerObject clusterP NotMetaObject ''ReplicaSet'' [PodLookup ''ns'' ''pod-a'', ?req]"
    by (subst getOriginControllerObject.simps)
       (auto simp: podObject_def podA_def clusterP_def clusterA_def controllerRef_def
          lowercaseAndPluralise_def plural_def)
  also have "\<dots> = Some (Panicked, [PodLookup ''ns'' ''pod-a'', ?req])"
    by (rule getOrigin_panics)
  finally have "reSchedulePod clusterP ''ns/pod-a'' = Some (Panicked, [PodLookup ''ns'' ''pod-a'', ?req])"
    by (simp add: reSchedulePod_found [OF split_podA g])
  then show ?thesis
    by (simp add: processEnqueuedItem_def)
qed

text \<open>
  Three instances, with the pod \<^verbatim>\<open>ns/pod-a\<close>: the patch is applied and the item forgotten;
  the read of the Deployment times out and the key is re-added; the read of the
  ReplicaSet returns no \<^verbatim>\<open>metav1.Object\<close> and the processing panics.
\<close>

theorem processEnqueuedItem_done_once_witness:
  "itemReturns clusterA 2 (StringItem ''ns/pod-a'') \<and>
   (\<exists>evs. processEnqueuedItem clusterA (StringItem ''ns/pod-a'', False) = Some (Returned True, evs) \<and>
      filter isQueueDone evs = [QueueDone (StringItem ''ns/pod-a'')] \<and>
      filter isVerdict evs = [QueueForget (StringItem ''ns/pod-a'')]) \<and>
   itemReturns clusterD 2 (StringItem ''ns/pod-a'') \<and>
   (\<exists>evs. processEnqueuedItem clusterD (StringItem ''ns/pod-a'', False) = Some (Returned True, evs) \<and>
      filter isQueueDone evs = [QueueDone (StringItem ''ns/pod-a'')] \<and>
      filter isVerdict evs = [QueueAddRateLimited ''ns/pod-a'']) \<and>
   itemPanics clusterP 2 (StringItem ''ns/pod-a'') \<and>
   (\<exists>evs. processEnqueuedItem clusterP (StringItem ''ns/pod-a'', False) = Some (Panicked, evs) \<and>
      filter isQueueDone evs = [QueueDone (StringItem ''ns/pod-a'')] \<and>
      filter isVerdict evs = [])"
proof -
  have ga: "podGet clusterA ''ns'' ''pod-a'' = Inr podA"
    by (simp add: clusterA_def)
  have gd: "podGet clusterD ''ns'' ''pod-a'' = Inr podA"
    by (simp add: clusterD_def clusterA_def)
  have gp: "podGet clusterP ''ns'' ''pod-a'' = Inr podA"
    by (simp add: clusterP_def clusterA_def)
  have "walkReturns clusterA (Suc (Suc 0)) (podObject podA)"
    by (auto simp: podObject_def podA_def clusterA_def controllerRef_def rsA_def deployA_def
          lowercaseAndPluralise_def plural_def)
  then have a: "itemReturns clusterA 2 (StringItem ''ns/pod-a'')"
    by (simp add: itemReturns_def split_podA ga numeral_2_eq_2)
  have "walkReturns clusterD (Suc (Suc 0)) (podObject podA)"
    by (auto simp: podObject_def podA_def clusterD_def clusterA_def controllerRef_def rsA_def
          lowercaseAndPluralise_def plural_def)
  then have d: "itemReturns clusterD 2 (StringItem ''ns/pod-a'')"
    by (simp add: itemReturns_def split_podA gd numeral_2_eq_2)
  have "walkPanics clusterP (Suc (Suc 0)) (podObject podA)"
    by (auto simp: podObject_def podA_def clusterP_def clusterA_def controllerRef_def
          lowercaseAndPluralise_def plural_def)
  then have p: "itemPanics clusterP 2 (StringItem ''ns/pod-a'')"
    by (simp add: itemPanics_def split_podA gp numeral_2_eq_2)
  from processEnqueuedItem_done_once [of clusterA 2 "StringItem ''ns/pod-a''" "[]"] a
  obtain ea where
    "processEnqueuedItem clusterA (StringItem ''ns/pod-a'', False) = Some (Returned True, ea)"
    "filter isQueueDone ea = [QueueDone (StringItem ''ns/pod-a'')]"
    "filter isVerdict ea = [QueueForget (StringItem ''ns/pod-a'')] \<or>
     (\<exists>key. StringItem ''ns/pod-a'' = StringItem key \<and> filter isVerdict ea = [QueueAddRateLimited key])"
    by blast
  then have wa: "\<exists>evs. processEnqueuedItem clusterA (StringItem ''ns/pod-a'', False)
                       = Some (Returned True, evs) \<and>
                   filter isQueueDone evs = [QueueDone (StringItem ''ns/pod-a'')] \<and>
                   filter isVerdict evs = [QueueForget (StringItem ''ns/pod-a'')]"
    by (auto simp: process_podA_forgotten)
  from processEnqueuedItem_done_once [of clusterD 2 "StringItem ''ns/pod-a''" "[]"] d
  obtain ed where
    "processEnqueuedItem clusterD (StringItem ''ns/pod-a'', False) = Some (Returned True, ed)"
    "filter isQueueDone ed = [QueueDone (StringItem ''ns/pod-a'')]"
    "filter isVerdict ed = [QueueForget (StringItem ''ns/pod-a'')] \<or>
     (\<exists>key. StringItem ''ns/pod-a'' = StringItem key \<and> filter isVerdict ed = [QueueAddRateLimited key])"
    by blast
  then have wd: "\<exists>evs. processEnqueuedItem clusterD (StringItem ''ns/pod-a'', False)
                       = Some (Returned True, evs) \<and>
                   filter isQueueDone evs = [QueueDone (StringItem ''ns/pod-a'')] \<and>
                   filter isVerdict evs = [QueueAddRateLimited ''ns/pod-a'']"
    by (auto simp: process_podA_requeued)
  from processEnqueuedItem_done_once [of clusterP 2 "StringItem ''ns/pod-a''" "[]"] p
  have wp: "\<exists>evs. processEnqueuedItem clusterP (StringItem ''ns/pod-a'', False) = Some (Panicked, evs) \<and>
              filter isQueueDone evs = [QueueDone (StringItem ''ns/pod-a'')] \<and>
              filter isVerdict evs = []"
    by blast
  from a wa d wd p wp show ?thesis by blast
qed

text \<open>
  C10 as stated fails when the processing panics: the read of the owner returns an object
  that is no \<^verbatim>\<open>metav1.Object\<close>, \<^verbatim>\<open>Done\<close> is called by the \<^verbatim>\<open>defer\<close>, neither \<^verbatim>\<open>Forget\<close> nor
  \<^verbatim>\<open>AddRateLimited\<close> is called, nothing is returned and the loop of \<^verbatim>\<open>Run\<close> is left.
\<close>

theorem processEnqueuedItem_panic_counterexample:
  "processEnqueuedItem clusterP (StringItem ''ns/pod-a'', False) =
     Some (Panicked,
           [PodLookup ''ns'' ''pod-a'', OwnerGet ''replicasets'' ''ns'' ''rs-a'',
            QueueDone (StringItem ''ns/pod-a'')]) \<and>
   runLoop clusterP [(StringItem ''ns/pod-a'', False), (StringItem ''ns/pod-a'', False)] =
     Some (Crashed,
           [PodLookup ''ns'' ''pod-a'', OwnerGet ''replicasets'' ''ns'' ''rs-a'',
            QueueDone (StringItem ''ns/pod-a'')])"
  by (simp add: process_podA_panicked)

section \<open>The patch builder\<close>

lemma Sprintf_verb:
  "CHR ''%'' \<notin> set pre \<Longrightarrow> Sprintf (pre @ CHR ''%'' # CHR ''s'' # post) a = pre @ a @ post"
proof (induction pre)
  case Nil
  show ?case by simp
next
  case (Cons x pre)
  then show ?case by (cases pre) auto
qed

lemma lexer_string:
  "list_all jsonSafeChar v \<Longrightarrow>
     lexer (Some acc) (v @ CHR 0x22 # rest) = map_option (Cons (Str (rev acc @ v))) (lexer None rest)"
proof (induction v arbitrary: acc)
  case Nil
  show ?case by simp
next
  case (Cons x v)
  then have "jsonSafeChar x" and "list_all jsonSafeChar v"
    by simp_all
  moreover from this have "x \<noteq> CHR 0x22"
    by (simp add: jsonSafeChar_def)
  ultimately have "x \<noteq> CHR 0x22" and "jsonSafeChar x" and "list_all jsonSafeChar v"
    by simp_all
  with Cons.IH [of "x # acc"] show ?case by simp
qed

lemma labelChar_jsonSafeChar: "labelChar x \<Longrightarrow> jsonSafeChar x"
  by (auto simp: labelChar_def jsonSafeChar_def)
lemma lex_patch:
  assumes "list_all jsonSafeChar v"
  shows "lexer None (Sprintf patchJSON v) = Some
    [LBrace, Str ''spec'', Colon, LBrace, Str ''template'', Colon, LBrace, Str ''spec'', Colon, LBrace,
     Str ''affinity'', Colon, LBrace, Str ''nodeAffinity'', Colon, LBrace,
     Str ''requiredDuringSchedulingIgnoredDuringExecution'', Colon, LBrace,
     Str ''nodeSelectorTerms'', Colon, LBracket, LBrace, Str ''matchExpressions'', Colon, LBracket,
     LBrace, Str ''key'', Colon, Str ''beta.kubernetes.io/arch'', Comma,
     Str ''operator'', Colon, Str ''NotIn'', Comma, Str ''values'', Colon, LBracket, Str v,
     RBracket, RBrace, RBracket, RBrace, RBracket, RBrace, RBrace, RBrace, RBrace, RBrace, RBrace,
     RBrace]"
  using assms by (simp add: patchJSON_def lexer_string jsonSafeChar_def)

lemma read_patch:
  assumes "list_all jsonSafeChar v"
  shows "readJSON (Sprintf patchJSON v) = Some (affinityPatch v)"
  by (simp add: readJSON_def lex_patch [OF assms] affinityPatch_def)

lemma patchJSON_one_verb: "filter (\<lambda>x. x = CHR ''%'') patchJSON = ''%''"
  by (simp add: patchJSON_def)

text \<open>
  C6. For every value without double quote, backslash or control character, as every
  label value of a node is, the document built from the template reads as: the pod
  template requires, during scheduling, a node selector term whose one expression has
  the key \<^verbatim>\<open>beta.kubernetes.io/arch\<close>, the operator \<^verbatim>\<open>NotIn\<close> and the one value given. The
  value that \<^verbatim>\<open>reSchedulePod\<close> gives is the architecture label of the pod's node, and the
  document is the body of the patch sent to the controller object.
\<close>

theorem patch_excludes_node_architecture:
  assumes "list_all jsonSafeChar v"
  shows "readJSON (Sprintf patchJSON v) = Some (affinityPatch v) \<and>
         (labels n ''beta.kubernetes.io/arch'' = Some v \<longrightarrow> archLabel n = v) \<and>
         (SplitMetaNamespaceKey key = Inr (ns, nm) \<and> podGet c ns nm = Inr p \<and>
          getOriginControllerObject c (MetaObject (podObject p)) (pod_kind p) [PodLookup ns nm]
            = Some (Returned (Inr cobj), evs) \<and>
          nodeGet c (nodeName p) = Inr n \<and>
          labels n ''beta.kubernetes.io/arch'' = Some v \<longrightarrow>
            (\<exists>out. reSchedulePod c key =
               Some (out, evs @ [NodeGet (nodeName p),
                                 Patch (namespace cobj) (lowercaseAndPluralise c (kind cobj))
                                   (name cobj) (Sprintf patchJSON v)])))"
proof (intro conjI impI)
  show "readJSON (Sprintf patchJSON v) = Some (affinityPatch v)"
    by (rule read_patch [OF assms])
next
  assume "labels n ''beta.kubernetes.io/arch'' = Some v"
  then show "archLabel n = v"
    by (simp add: archLabel_def)
next
  assume a: "SplitMetaNamespaceKey key = Inr (ns, nm) \<and> podGet c ns nm = Inr p \<and>
          getOriginControllerObject c (MetaObject (podObject p)) (pod_kind p) [PodLookup ns nm]
            = Some (Returned (Inr cobj), evs) \<and>
          nodeGet c (nodeName p) = Inr n \<and>
          labels n ''beta.kubernetes.io/arch'' = Some v"
  then have s: "SplitMetaNamespaceKey key = Inr (ns, nm)" and g: "podGet c ns nm = Inr p"
    and l: "archLabel n = v"
    by (simp_all add: archLabel_def)
  from a show "\<exists>out. reSchedulePod c key =
               Some (out, evs @ [NodeGet (nodeName p),
                                 Patch (namespace cobj) (lowercaseAndPluralise c (kind cobj))
                                   (name cobj) (Sprintf patchJSON v)])"
    unfolding reSchedulePod_found [OF s g]
    by (cases "doPatch c (namespace cobj) (lowercaseAndPluralise c (kind cobj)) (name cobj)
                 (Sprintf patchJSON v)") (simp_all add: l)
qed

theorem patch_excludes_node_architecture_witness:
  "list_all jsonSafeChar ''arm64'' \<and>
   readJSON (Sprintf patchJSON ''arm64'') = Some (affinityPatch ''arm64'')"
proof -
  have s: "list_all jsonSafeChar ''arm64''"
    by (simp add: jsonSafeChar_def)
  from patch_excludes_node_architecture [OF s] s show ?thesis
    by blast
qed
text \<open>
  The template takes the value as it is, with no escaping: a value that holds a double
  quote does not read back as the document of that value.
\<close>

lemma patch_value_not_escaped:
  "readJSON (Sprintf patchJSON (''arm64'' @ [CHR 0x22] @ '', '' @ [CHR 0x22] @ ''amd64'')) \<noteq>
     Some (affinityPatch (''arm64'' @ [CHR 0x22] @ '', '' @ [CHR 0x22] @ ''amd64''))"
  by (simp add: readJSON_def patchJSON_def affinityPatch_def jsonSafeChar_def)

section \<open>Ownership cycles\<close>

text \<open>
  The walk has no bound on its depth. When the ReplicaSet of \<^verbatim>\<open>pod-a\<close> names itself as its
  controller, \<^verbatim>\<open>getOriginControllerObject\<close> never returns, and neither does
  \<^verbatim>\<open>processEnqueuedItem\<close>: no call of the queue is made for the item.
\<close>

lemma getOrigin_cycle_aux:
  assumes "getOriginControllerObject c obj knd evs = Some y"
  shows "\<not> (c = clusterO \<and> (obj = MetaObject rsLoop \<or> obj = MetaObject (podObject podA)))"
proof (rule getOriginControllerObject.raw_induct
         [where P = "\<lambda>c obj knd evs y.
            \<not> (c = clusterO \<and> (obj = MetaObject rsLoop \<or> obj = MetaObject (podObject podA)))",
          rotated 1, OF assms])
  fix walk c obj knd evs y
  assume IH: "\<And>c obj knd evs y. walk c obj knd evs = Some y \<Longrightarrow>
          \<not> (c = clusterO \<and> (obj = MetaObject rsLoop \<or> obj = MetaObject (podObject podA)))"
    and step: "(case obj of
      MetaObject object \<Rightarrow>
        (case GetControllerOf object of
           None \<Rightarrow>
             Some (Returned (Inr \<lparr>kind = knd, name = obj_name object,
                                  namespace = obj_namespace object\<rparr>), evs)
         | Some ownerRef \<Rightarrow>
             (let req = OwnerGet (lowercaseAndPluralise c (ref_kind ownerRef))
                          (obj_namespace object) (ref_name ownerRef)
              in case ownerGet c (lowercaseAndPluralise c (ref_kind ownerRef))
                        (obj_namespace object) (ref_name ownerRef) of
                   Inl err \<Rightarrow> Some (Returned (Inl err), evs @ [req])
                 | Inr res \<Rightarrow> walk c res (ref_kind ownerRef) (evs @ [req])))
      | NotMetaObject \<Rightarrow> Some (Panicked, evs)) = Some y"
  show "\<not> (c = clusterO \<and> (obj = MetaObject rsLoop \<or> obj = MetaObject (podObject podA)))"
  proof
    assume a: "c = clusterO \<and> (obj = MetaObject rsLoop \<or> obj = MetaObject (podObject podA))"
    have r: "GetControllerOf rsLoop = Some (controllerRef ''ReplicaSet'' ''rs-a'')"
      by (auto simp: rsLoop_def controllerRef_def)
    have p: "GetControllerOf (podObject podA) = Some (controllerRef ''ReplicaSet'' ''rs-a'')"
      by (auto simp: podObject_def podA_def controllerRef_def)
    have "\<exists>evs'. walk clusterO (MetaObject rsLoop) ''ReplicaSet'' evs' = Some y"
      using a step r p
      by (auto simp: clusterO_def clusterA_def controllerRef_def simp del: GetControllerOf.simps)
    then show False
      using IH by blast
  qed
qed

lemma getOrigin_cycle:
  "getOriginControllerObject clusterO (MetaObject (podObject podA)) knd evs = None"
  using getOrigin_cycle_aux [of clusterO "MetaObject (podObject podA)" knd evs]
  by (cases "getOriginControllerObject clusterO (MetaObject (podObject podA)) knd evs") auto

lemma processEnqueuedItem_cycle:
  "processEnqueuedItem clusterO (StringItem ''ns/pod-a'', False) = None"
proof -
  have g: "podGet clusterO ''ns'' ''pod-a'' = Inr podA"
    by (simp add: clusterO_def clusterA_def)
  show ?thesis
    by (simp add: processEnqueuedItem_def reSchedulePod_found [OF split_podA g] getOrigin_cycle)
qed

end
